theory Spec2Isabelle
  imports Complex_Main
begin

section \<open>One-layer quasi-geostrophic channel model (QG\_pert\_channel.py)\<close>

text \<open>
  The program integrates the potential-vorticity equation with a pseudo-spectral flux
  evaluation (\<open>flux_qg\<close>) and an Euler / AB2 / AB3 time stepper with an exponential
  spectral filter (\<open>solve_qg\<close>).  Floating-point numbers are modelled by exact reals and
  complex numbers, so every statement below is about the arithmetic the program writes
  down, not about rounding.  Values that are \<open>inf\<close> or \<open>nan\<close> in numpy have no counterpart
  here; the places where numpy would produce one are named where they occur.

  A two-dimensional numpy array is a list of rows.  numpy arrays are rectangular, which
  the predicate \<open>has_shape\<close> states.
\<close>

subsection \<open>Errors\<close>

datatype error = ValueError | IndexError | ZeroDivisionError | TypeError

definition ebind :: "error + 'a \<Rightarrow> ('a \<Rightarrow> error + 'b) \<Rightarrow> error + 'b" where
  "ebind m f = (case m of Inl e \<Rightarrow> Inl e | Inr x \<Rightarrow> f x)"

subsection \<open>Arrays\<close>

type_synonym 'a array2 = "'a list list"

definition ncols :: "'a array2 \<Rightarrow> nat" where
  "ncols A = (case A of [] \<Rightarrow> 0 | r # _ \<Rightarrow> length r)"

definition has_shape :: "'a array2 \<Rightarrow> nat \<Rightarrow> nat \<Rightarrow> bool" where
  "has_shape A m n = (length A = m \<and> list_all (\<lambda>r. length r = n) A)"

text \<open>\<open>np.flipud\<close> reverses the order of the rows; \<open>np.vstack\<close> of two arrays with the same
  number of columns puts the rows of the second under those of the first.  In the program
  the two arguments of \<open>vstack\<close> are always \<open>q\<close> and \<open>-flipud(q)\<close>, whose widths agree.\<close>

definition flipud :: "'a array2 \<Rightarrow> 'a array2" where
  "flipud A = rev A"

definition vstack :: "'a array2 \<Rightarrow> 'a array2 \<Rightarrow> 'a array2" where
  "vstack A B = A @ B"

definition neg :: "('a::uminus) array2 \<Rightarrow> 'a array2" where
  "neg A = map (map uminus) A"

text \<open>\<open>A[0:n,:]\<close>: the first \<open>n\<close> rows (all of them when there are fewer).\<close>

definition rows_upto :: "nat \<Rightarrow> 'a array2 \<Rightarrow> 'a array2" where
  "rows_upto n A = take n A"

text \<open>The odd extension \<open>np.vstack((q,-np.flipud(q)))\<close> of lines 74 and 231.\<close>

definition extend_odd :: "real array2 \<Rightarrow> real array2" where
  "extend_odd q = vstack q (neg (flipud q))"

subsection \<open>Elementwise arithmetic with numpy broadcasting\<close>

text \<open>
  A binary operator on two arrays compares the two shapes axis by axis: the lengths agree,
  or one of them is 1 and that operand is repeated along the axis; otherwise numpy raises
  \<open>ValueError\<close>.  A scalar operand is applied to every entry.
\<close>

definition bdim :: "nat \<Rightarrow> nat \<Rightarrow> nat option" where
  "bdim m n = (if m = n then Some m else if m = 1 then Some n
               else if n = 1 then Some m else None)"

definition stretch :: "nat \<Rightarrow> 'a list \<Rightarrow> 'a list" where
  "stretch n xs = (if length xs = n then xs else replicate n (hd xs))"

definition ew2 :: "('a \<Rightarrow> 'b \<Rightarrow> 'c) \<Rightarrow> 'a array2 \<Rightarrow> 'b array2 \<Rightarrow> error + 'c array2" where
  "ew2 f A B =
     (case bdim (length A) (length B) of
        None \<Rightarrow> Inl ValueError
      | Some m \<Rightarrow>
          (case bdim (ncols A) (ncols B) of
             None \<Rightarrow> Inl ValueError
           | Some n \<Rightarrow>
               Inr (map2 (\<lambda>r s. map2 f (stretch n r) (stretch n s))
                      (stretch m A) (stretch m B))))"

definition ew1 :: "('a \<Rightarrow> 'b) \<Rightarrow> 'a array2 \<Rightarrow> 'b array2" where
  "ew1 f A = map (map f) A"

text \<open>The array of zeros of a given shape.\<close>

definition zeros2 :: "nat \<Rightarrow> nat \<Rightarrow> real array2" where
  "zeros2 m n = replicate m (replicate n 0)"

text \<open>The product \<open>c*q\<close> of a scalar and an array.\<close>

definition scale :: "real \<Rightarrow> real array2 \<Rightarrow> real array2" where
  "scale c A = ew1 (\<lambda>x. c * x) A"

text \<open>The product of a real array (\<open>K2Fi\<close>, \<open>sfilt\<close>) with a complex one.\<close>

definition rc_mult :: "real \<Rightarrow> complex \<Rightarrow> complex" where
  "rc_mult a z = complex_of_real a * z"

text \<open>\<open>np.mean\<close> of a two-dimensional array: the sum of all entries over their number.
  (For an array without entries numpy returns \<open>nan\<close>; the quotient below is then 0.)\<close>

definition mean2 :: "real array2 \<Rightarrow> real" where
  "mean2 A = sum_list (map sum_list A) / real (length A * ncols A)"

subsection \<open>The discrete Fourier transform (\<open>scipy.fftpack.fftn\<close>, \<open>ifftn\<close>)\<close>

text \<open>
  The library transforms are not part of the repository; they are modelled by their
  documented definition, the two-dimensional discrete Fourier transform over both axes
  \<open>Y[k,l] = \<Sum>m,n. X[m,n] * exp(-2\<pi>i(km/M + ln/N))\<close> and its inverse with the factor
  \<open>1/(MN)\<close>.  The library rejects an array without data points with \<open>ValueError\<close>.
\<close>

definition twiddle :: "nat \<Rightarrow> int \<Rightarrow> complex" where
  "twiddle N j = cis (2 * pi * real_of_int j / real N)"

definition dft2 :: "int \<Rightarrow> complex array2 \<Rightarrow> nat \<Rightarrow> nat \<Rightarrow> complex" where
  "dft2 sg A k l =
     (\<Sum>m<length A. \<Sum>n<ncols A.
        A ! m ! n * twiddle (length A) (sg * int (k * m)) * twiddle (ncols A) (sg * int (l * n)))"

definition tabulate2 :: "nat \<Rightarrow> nat \<Rightarrow> (nat \<Rightarrow> nat \<Rightarrow> 'a) \<Rightarrow> 'a array2" where
  "tabulate2 M N f = map (\<lambda>k. map (\<lambda>l. f k l) [0..<N]) [0..<M]"

definition fftn :: "complex array2 \<Rightarrow> error + complex array2" where
  "fftn A =
     (if length A = 0 \<or> ncols A = 0 then Inl ValueError
      else Inr (tabulate2 (length A) (ncols A) (\<lambda>k l. dft2 (- 1) A k l)))"

definition ifftn :: "complex array2 \<Rightarrow> error + complex array2" where
  "ifftn A =
     (if length A = 0 \<or> ncols A = 0 then Inl ValueError
      else Inr (tabulate2 (length A) (ncols A)
                  (\<lambda>k l. dft2 1 A k l / of_nat (length A * ncols A))))"

subsection \<open>The parameter object\<close>

text \<open>The attributes that \<open>Parms.__init__\<close> stores (lines 136-193).\<close>

record parms =
  Nx :: nat
  Ny :: nat
  Lx :: real
  Ly :: real
  g0 :: real
  H0 :: real
  beta :: real
  t0 :: real
  dt :: real
  tf :: real
  npt :: int
  tplot :: real
  dx :: real
  dy :: real
  F :: real
  U :: real
  Q_y :: real
  xx :: "real array2"
  yy :: "real array2"
  ikx :: "complex array2"
  iky :: "complex array2"
  K2Fi :: "real array2"
  sfilt :: "real array2"

subsection \<open>\<open>flux_qg\<close> (lines 71-104)\<close>

text \<open>The physical fields that \<open>flux_qg\<close> computes before it forms the flux, after the
  restriction to the first \<open>Ny\<close> rows.\<close>

record fields =
  f_qx :: "real array2"
  f_qy :: "real array2"
  f_u :: "real array2"
  f_v :: "real array2"
  f_psi :: "real array2"

definition flux_fields :: "real array2 \<Rightarrow> parms \<Rightarrow> error + fields" where
  "flux_fields q p =
     (let qe = extend_odd q in
      ebind (fftn (ew1 complex_of_real qe)) (\<lambda>qe_hat.
      ebind (ebind (ew2 (*) (ikx p) qe_hat) ifftn) (\<lambda>qx_c.
      ebind (ebind (ew2 (*) (iky p) qe_hat) ifftn) (\<lambda>qy_c.
      ebind (ew2 rc_mult (K2Fi p) qe_hat) (\<lambda>psie_hat.
      ebind (ifftn psie_hat) (\<lambda>psi_c.
      ebind (ebind (ew2 (*) (neg (iky p)) psie_hat) ifftn) (\<lambda>u_c.
      ebind (ebind (ew2 (*) (ikx p) psie_hat) ifftn) (\<lambda>v_c.
        Inr \<lparr> f_qx = rows_upto (Ny p) (ew1 Re qx_c),
              f_qy = rows_upto (Ny p) (ew1 Re qy_c),
              f_u = rows_upto (Ny p) (ew1 Re u_c),
              f_v = rows_upto (Ny p) (ew1 Re v_c),
              f_psi = rows_upto (Ny p) (ew1 Re psi_c) \<rparr>))))))))"

definition flux_qg :: "real array2 \<Rightarrow> parms \<Rightarrow> error + (real array2 \<times> real \<times> real \<times> real)" where
  "flux_qg q p =
     ebind (flux_fields q p) (\<lambda>fl.
     ebind (ew2 (*) (neg (ew1 (\<lambda>x. x + U p) (f_u fl))) (f_qx fl)) (\<lambda>t1.
     ebind (ew2 (*) (ew1 (\<lambda>x. x + Q_y p) (f_qy fl)) (f_v fl)) (\<lambda>t2.
     ebind (ew2 (-) t1 t2) (\<lambda>flux.
     ebind (ew2 (+) (ew1 (\<lambda>x. x ^ 2) (f_u fl)) (ew1 (\<lambda>x. x ^ 2) (f_v fl))) (\<lambda>ke.
       let energy = 0.5 * mean2 ke + mean2 (ew1 (\<lambda>x. F p * x) (ew1 (\<lambda>x. x ^ 2) (f_psi fl)));
           enstr = mean2 (ew1 (\<lambda>x. x ^ 2) q);
           mass = mean2 (f_psi fl)
       in Inr (flux, energy, enstr, mass))))))"

subsection \<open>\<open>Parms.__init__\<close> (lines 114-193)\<close>

text \<open>
  A division of two Python numbers raises \<open>ZeroDivisionError\<close> when the divisor is 0; a
  division of numpy arrays or numpy scalars does not raise (it warns and yields \<open>inf\<close> or
  \<open>nan\<close>).  The first kind is a branch of the model, the second is the real quotient.
\<close>

definition py_div :: "real \<Rightarrow> real \<Rightarrow> error + real" where
  "py_div a b = (if b = 0 then Inl ZeroDivisionError else Inr (a / b))"

definition linspace :: "real \<Rightarrow> real \<Rightarrow> nat \<Rightarrow> real list" where
  "linspace a b n =
     (if n = 1 then [a] else map (\<lambda>i. a + real i * ((b - a) / real (n - 1))) [0..<n])"

definition meshgrid :: "'a list \<Rightarrow> 'a list \<Rightarrow> 'a array2 \<times> 'a array2" where
  "meshgrid x y = (replicate (length y) x, map (\<lambda>v. replicate (length x) v) y)"

text \<open>Lines 169-171: \<open>range(0,int(Nx/2)+1)\<close> followed by \<open>range(-int(Nx/2)+1,0)\<close>, scaled by
  \<open>2\<pi>/Lx\<close>, and \<open>range(0,Ny+1)\<close> followed by \<open>range(-Ny+1,0)\<close>, scaled by \<open>\<pi>/Ly\<close>.\<close>

definition kx_index :: "nat \<Rightarrow> int list" where
  "kx_index nx = [0..int (nx div 2)] @ [- int (nx div 2) + 1..- 1]"

definition ky_index :: "nat \<Rightarrow> int list" where
  "ky_index ny = [0..int ny] @ [- int ny + 1..- 1]"

definition wavenumbers :: "nat \<Rightarrow> nat \<Rightarrow> real \<Rightarrow> real \<Rightarrow> error + (real list \<times> real list)" where
  "wavenumbers nx ny lx ly =
     ebind (py_div (2 * pi) lx) (\<lambda>cx.
     ebind (py_div pi ly) (\<lambda>cy.
       Inr (map (\<lambda>j. cx * real_of_int j) (kx_index nx),
            map (\<lambda>j. cy * real_of_int j) (ky_index ny))))"

text \<open>\<open>A[0,0] = v\<close> raises \<open>IndexError\<close> on an array without entries.\<close>

definition set00 :: "'a array2 \<Rightarrow> 'a \<Rightarrow> error + 'a array2" where
  "set00 A v = (if length A = 0 \<or> ncols A = 0 then Inl IndexError
                else Inr (A[0 := (A ! 0)[0 := v]]))"

text \<open>Lines 172-176.  The quotient is a numpy one; the entry at the zero wavenumber is
  overwritten afterwards.\<close>

definition inversion_kernel :: "real array2 \<Rightarrow> real array2 \<Rightarrow> real \<Rightarrow> error + real array2" where
  "inversion_kernel kxx kyy f =
     ebind (ew2 (+) (ew1 (\<lambda>x. x ^ 2) kxx) (ew1 (\<lambda>x. x ^ 2) kyy)) (\<lambda>k2.
       let K = ew1 (\<lambda>x. - 1 / (x + f)) k2 in
       if f = 0 then set00 K 0
       else ebind (py_div (- 1) f) (\<lambda>v. set00 K v))"

text \<open>Lines 188-193.  \<open>max(kx)\<close> is a numpy scalar, so the arithmetic that follows does not
  raise.\<close>

definition filter_kernel :: "real list \<Rightarrow> real array2 \<Rightarrow> real array2 \<Rightarrow> error + real array2" where
  "filter_kernel kx kxx kyy =
     (let kmax = fold max (tl kx) (hd kx);
          ks = 0.4 * kmax;
          km = 0.5 * kmax;
          alpha = 0.69 * ks powr (- 1.88 / ln (km / ks));
          beta2 = 1.88 / ln (km / ks)
      in ebind (ew2 (+) (ew1 (\<lambda>x. x ^ 2) kxx) (ew1 (\<lambda>x. x ^ 2) kyy)) (\<lambda>k2.
           Inr (ew1 (\<lambda>x. exp (- alpha * x powr (beta2 / 2))) k2)))"

definition Parms_init ::
  "nat \<Rightarrow> nat \<Rightarrow> real \<Rightarrow> real \<Rightarrow> real \<Rightarrow> real \<Rightarrow> real \<Rightarrow> real \<Rightarrow> real \<Rightarrow> real \<Rightarrow> real \<Rightarrow> int
     \<Rightarrow> error + parms" where
  "Parms_init nx ny lx ly g h f0 b t0' dt' tf' npt' =
     ebind (py_div lx (real nx)) (\<lambda>dx'.
     ebind (py_div ly (real ny)) (\<lambda>dy'.
     ebind (py_div f0 (g * h)) (\<lambda>r.
       let F' = 0 * r ^ 2;
           U' = 0;
           x = linspace (- lx / 2 + dx' / 2) (lx / 2 - dx' / 2) nx;
           y = linspace (- ly / 2 + dy' / 2) (ly / 2 - dy' / 2) ny;
           (xx', yy') = meshgrid x y
       in
       ebind (wavenumbers nx ny lx ly) (\<lambda>(kx, ky).
         let (kxx, kyy) = meshgrid kx ky in
         ebind (inversion_kernel kxx kyy F') (\<lambda>K.
         ebind (filter_kernel kx kxx kyy) (\<lambda>sf.
           Inr \<lparr> Nx = nx, Ny = ny, Lx = lx, Ly = ly, g0 = g, H0 = h, beta = b,
                 t0 = t0', dt = dt', tf = tf', npt = npt',
                 tplot = dt' * real_of_int npt',
                 dx = dx', dy = dy', F = F', U = U', Q_y = F' * U' + b,
                 xx = xx', yy = yy',
                 ikx = ew1 (\<lambda>k. \<i> * complex_of_real k) kxx,
                 iky = ew1 (\<lambda>k. \<i> * complex_of_real k) kyy,
                 K2Fi = K, sfilt = sf \<rparr>))))))"

subsection \<open>\<open>solve_qg\<close> (lines 199-254)\<close>

text \<open>The local variables of \<open>solve_qg\<close> that live across steps.  \<open>s_frames\<close> lists the
  calls of the rendering hook: the time and the field that are drawn.\<close>

record lstate =
  s_q :: "real array2"
  s_NLn :: "real array2"
  s_NLnm :: "real array2"
  s_energy :: "real list"
  s_enstr :: "real list"
  s_mass :: "real list"
  s_cnt :: nat
  s_frames :: "(real \<times> real array2) list"

text \<open>\<open>int(x)\<close> of a float truncates towards zero.\<close>

definition py_int :: "real \<Rightarrow> int" where
  "py_int x = (if 0 \<le> x then \<lfloor>x\<rfloor> else \<lceil>x\<rceil>)"

text \<open>\<open>a[i] = v\<close> with a non-negative index raises \<open>IndexError\<close> beyond the end.\<close>

definition setitem :: "'a list \<Rightarrow> nat \<Rightarrow> 'a \<Rightarrow> error + 'a list" where
  "setitem xs i v = (if i < length xs then Inr (xs[i := v]) else Inl IndexError)"

text \<open>The targets \<open>energy[i], enstr[i], mass[i]\<close> of the tuple assignments, left to right.\<close>

definition store_diag :: "nat \<Rightarrow> real \<Rightarrow> real \<Rightarrow> real \<Rightarrow> lstate \<Rightarrow> error + lstate" where
  "store_diag i e z m s =
     ebind (setitem (s_energy s) i e) (\<lambda>en.
     ebind (setitem (s_enstr s) i z) (\<lambda>zs.
     ebind (setitem (s_mass s) i m) (\<lambda>ms.
       Inr (s\<lparr>s_energy := en, s_enstr := zs, s_mass := ms\<rparr>))))"

text \<open>Lines 231-233, the exponential filter.\<close>

definition spectral_filter :: "parms \<Rightarrow> real array2 \<Rightarrow> error + real array2" where
  "spectral_filter p q =
     (let qe = extend_odd q in
      ebind (fftn (ew1 complex_of_real qe)) (\<lambda>qe_hat.
      ebind (ew2 rc_mult (sfilt p) qe_hat) (\<lambda>fh.
      ebind (ifftn fh) (\<lambda>qe'.
        Inr (rows_upto (Ny p) (ew1 Re qe'))))))"

text \<open>Line 207, \<open>Nt = int(parms.tf/parms.dt)\<close>; \<open>np.zeros(Nt)\<close> on the next line raises
  \<open>ValueError\<close> for a negative \<open>Nt\<close>.\<close>

definition num_steps :: "parms \<Rightarrow> error + nat" where
  "num_steps p =
     ebind (py_div (tf p) (dt p)) (\<lambda>r.
       if py_int r < 0 then Inl ValueError else Inr (nat (py_int r)))"

text \<open>Lines 208-215: the diagnostic arrays and the Euler step.\<close>

definition euler_step :: "parms \<Rightarrow> nat \<Rightarrow> real array2 \<Rightarrow> error + lstate" where
  "euler_step p Nt q0 =
     ebind (flux_qg q0 p) (\<lambda>(NLnm, e, z, m).
     ebind (store_diag 0 e z m
              \<lparr> s_q = q0, s_NLn = [], s_NLnm = NLnm,
                s_energy = replicate Nt 0, s_enstr = replicate Nt 0,
                s_mass = replicate Nt 0, s_cnt = 0, s_frames = [] \<rparr>) (\<lambda>s.
     ebind (ew2 (+) q0 (ew1 (\<lambda>x. dt p * x) NLnm)) (\<lambda>q.
       Inr (s\<lparr>s_q := q\<rparr>))))"

text \<open>Lines 217-222: the AB2 step.\<close>

definition ab2_step :: "parms \<Rightarrow> lstate \<Rightarrow> error + lstate" where
  "ab2_step p s =
     ebind (flux_qg (s_q s) p) (\<lambda>(NLn, e, z, m).
     ebind (store_diag 1 e z m (s\<lparr>s_NLn := NLn\<rparr>)) (\<lambda>s1.
     ebind (ew2 (-) (ew1 (\<lambda>x. 3 * x) NLn) (s_NLnm s1)) (\<lambda>d.
     ebind (ew2 (+) (s_q s1) (ew1 (\<lambda>x. 0.5 * dt p * x) d)) (\<lambda>q.
       Inr (s1\<lparr>s_q := q, s_cnt := 2\<rparr>)))))"

text \<open>Lines 225-252: one pass of the loop body for the loop index \<open>ii\<close>.\<close>

definition ab3_step :: "parms \<Rightarrow> nat \<Rightarrow> lstate \<Rightarrow> error + lstate" where
  "ab3_step p ii s =
     (let t = real (ii - 1) * dt p in
      ebind (flux_qg (s_q s) p) (\<lambda>(NL, e, z, m).
      ebind (store_diag (ii - 1) e z m s) (\<lambda>s1.
      ebind (ew2 (-) (ew1 (\<lambda>x. 23 * x) NL) (ew1 (\<lambda>x. 16 * x) (s_NLn s1))) (\<lambda>a.
      ebind (ew2 (+) a (ew1 (\<lambda>x. 5 * x) (s_NLnm s1))) (\<lambda>b.
      ebind (ew2 (+) (s_q s1) (ew1 (\<lambda>x. dt p / 12 * x) b)) (\<lambda>q1.
      ebind (spectral_filter p q1) (\<lambda>q2.
        let s2 = s1\<lparr>s_q := q2, s_NLnm := s_NLn s1, s_NLn := NL\<rparr> in
        if npt p = 0 then Inl ZeroDivisionError
        else if int ii mod npt p = 0
          then Inr (s2\<lparr>s_frames := s_frames s2 @ [(t, q2)], s_cnt := s_cnt s2 + 1\<rparr>)
          else Inr s2)))))))"

text \<open>The \<open>for\<close> loop over \<open>range(3,Nt+1)\<close>.\<close>

fun ab3_loop :: "parms \<Rightarrow> nat list \<Rightarrow> lstate \<Rightarrow> error + lstate" where
  "ab3_loop p [] s = Inr s"
| "ab3_loop p (ii # iis) s = ebind (ab3_step p ii s) (ab3_loop p iis)"

definition solve_qg ::
  "parms \<Rightarrow> real array2 \<Rightarrow> error + (real array2 \<times> real list \<times> real list \<times> real list)" where
  "solve_qg p q0 =
     ebind (num_steps p) (\<lambda>Nt.
     ebind (euler_step p Nt q0) (\<lambda>s0.
     ebind (ab2_step p s0) (\<lambda>s1.
     ebind (ab3_loop p [3..<Nt + 1] s1) (\<lambda>s.
       Inr (s_q s, s_energy s, s_enstr s, s_mass s)))))"

subsection \<open>The configuration invariant and the pointwise formulas of the specification\<close>

text \<open>The invariant of a configuration: a grid with at least one point in each direction,
  and spectral arrays of the mirror-doubled shape \<open>(2 Ny, Nx)\<close>.\<close>

definition spectral_shape :: "parms \<Rightarrow> bool" where
  "spectral_shape p =
     (0 < Nx p \<and> 0 < Ny p \<and>
      has_shape (ikx p) (2 * Ny p) (Nx p) \<and> has_shape (iky p) (2 * Ny p) (Nx p) \<and>
      has_shape (K2Fi p) (2 * Ny p) (Nx p) \<and> has_shape (sfilt p) (2 * Ny p) (Nx p))"

text \<open>The specification describes the flux entry by entry.  \<open>spec_ext\<close> is the odd
  extension of a field with \<open>ny\<close> rows, \<open>spec_hat\<close> its forward transform, and \<open>spec_inv\<close>
  the real part of the inverse transform of a spectral field, each written as a function
  of the indices.\<close>

definition spec_ext :: "nat \<Rightarrow> real array2 \<Rightarrow> nat \<Rightarrow> nat \<Rightarrow> real" where
  "spec_ext ny q m n = (if m < ny then q ! m ! n else - (q ! (2 * ny - 1 - m) ! n))"

definition spec_hat :: "nat \<Rightarrow> nat \<Rightarrow> real array2 \<Rightarrow> nat \<Rightarrow> nat \<Rightarrow> complex" where
  "spec_hat ny nx q k l =
     (\<Sum>m<2 * ny. \<Sum>n<nx.
        complex_of_real (spec_ext ny q m n)
          * twiddle (2 * ny) (- int (k * m)) * twiddle nx (- int (l * n)))"

definition spec_cinv :: "nat \<Rightarrow> nat \<Rightarrow> (nat \<Rightarrow> nat \<Rightarrow> complex) \<Rightarrow> nat \<Rightarrow> nat \<Rightarrow> complex" where
  "spec_cinv M N g i j =
     (\<Sum>k<M. \<Sum>l<N. g k l * twiddle M (int (i * k)) * twiddle N (int (j * l)))
       / of_nat (M * N)"

definition spec_inv :: "nat \<Rightarrow> nat \<Rightarrow> (nat \<Rightarrow> nat \<Rightarrow> complex) \<Rightarrow> nat \<Rightarrow> nat \<Rightarrow> real" where
  "spec_inv M N g i j = Re (spec_cinv M N g i j)"

definition spec_psi_hat :: "parms \<Rightarrow> real array2 \<Rightarrow> nat \<Rightarrow> nat \<Rightarrow> complex" where
  "spec_psi_hat p q k l = complex_of_real (K2Fi p ! k ! l) * spec_hat (Ny p) (Nx p) q k l"

definition spec_qx :: "parms \<Rightarrow> real array2 \<Rightarrow> nat \<Rightarrow> nat \<Rightarrow> real" where
  "spec_qx p q = spec_inv (2 * Ny p) (Nx p) (\<lambda>k l. ikx p ! k ! l * spec_hat (Ny p) (Nx p) q k l)"

definition spec_qy :: "parms \<Rightarrow> real array2 \<Rightarrow> nat \<Rightarrow> nat \<Rightarrow> real" where
  "spec_qy p q = spec_inv (2 * Ny p) (Nx p) (\<lambda>k l. iky p ! k ! l * spec_hat (Ny p) (Nx p) q k l)"

definition spec_psi :: "parms \<Rightarrow> real array2 \<Rightarrow> nat \<Rightarrow> nat \<Rightarrow> real" where
  "spec_psi p q = spec_inv (2 * Ny p) (Nx p) (spec_psi_hat p q)"

definition spec_u :: "parms \<Rightarrow> real array2 \<Rightarrow> nat \<Rightarrow> nat \<Rightarrow> real" where
  "spec_u p q = spec_inv (2 * Ny p) (Nx p) (\<lambda>k l. - (iky p ! k ! l) * spec_psi_hat p q k l)"

definition spec_v :: "parms \<Rightarrow> real array2 \<Rightarrow> nat \<Rightarrow> nat \<Rightarrow> real" where
  "spec_v p q = spec_inv (2 * Ny p) (Nx p) (\<lambda>k l. ikx p ! k ! l * spec_psi_hat p q k l)"

definition spec_flux :: "parms \<Rightarrow> real array2 \<Rightarrow> nat \<Rightarrow> nat \<Rightarrow> real" where
  "spec_flux p q i j =
     - (spec_u p q i j + U p) * spec_qx p q i j - (spec_qy p q i j + Q_y p) * spec_v p q i j"

definition spec_flux_field :: "parms \<Rightarrow> real array2 \<Rightarrow> real array2" where
  "spec_flux_field p q = tabulate2 (Ny p) (Nx p) (spec_flux p q)"

text \<open>The mean of a function of the indices over the physical domain.\<close>

definition spec_mean :: "nat \<Rightarrow> nat \<Rightarrow> (nat \<Rightarrow> nat \<Rightarrow> real) \<Rightarrow> real" where
  "spec_mean ny nx g = (\<Sum>i<ny. \<Sum>j<nx. g i j) / real (ny * nx)"

text \<open>The three diagnostics of the specification.\<close>

definition spec_energy :: "parms \<Rightarrow> real array2 \<Rightarrow> real" where
  "spec_energy p q =
     0.5 * spec_mean (Ny p) (Nx p) (\<lambda>i j. (spec_u p q i j)\<^sup>2 + (spec_v p q i j)\<^sup>2)
       + spec_mean (Ny p) (Nx p) (\<lambda>i j. F p * (spec_psi p q i j)\<^sup>2)"

definition spec_enstrophy :: "parms \<Rightarrow> real array2 \<Rightarrow> real" where
  "spec_enstrophy p q = spec_mean (Ny p) (Nx p) (\<lambda>i j. (q ! i ! j)\<^sup>2)"

definition spec_mass :: "parms \<Rightarrow> real array2 \<Rightarrow> real" where
  "spec_mass p q = spec_mean (Ny p) (Nx p) (spec_psi p q)"

text \<open>The filtered field of the specification: extend, transform, multiply by the filter
  kernel, transform back, take the real part.\<close>

definition spec_filter :: "parms \<Rightarrow> real array2 \<Rightarrow> nat \<Rightarrow> nat \<Rightarrow> real" where
  "spec_filter p q =
     spec_inv (2 * Ny p) (Nx p)
       (\<lambda>k l. complex_of_real (sfilt p ! k ! l) * spec_hat (Ny p) (Nx p) q k l)"

text \<open>The shapes of the loop variables: the field and the two retained fluxes live on the
  physical grid, and the three diagnostic arrays have \<open>Nt\<close> entries.\<close>

definition state_shape :: "parms \<Rightarrow> nat \<Rightarrow> lstate \<Rightarrow> bool" where
  "state_shape p Nt s =
     (has_shape (s_q s) (Ny p) (Nx p) \<and> has_shape (s_NLn s) (Ny p) (Nx p) \<and>
      has_shape (s_NLnm s) (Ny p) (Nx p) \<and>
      length (s_energy s) = Nt \<and> length (s_enstr s) = Nt \<and> length (s_mass s) = Nt)"

text \<open>The updates of the specification, entry by entry: the Euler step, the AB2 step and
  the AB3 step, from the field and the fluxes they combine.\<close>

definition spec_euler :: "parms \<Rightarrow> real array2 \<Rightarrow> real array2 \<Rightarrow> real array2" where
  "spec_euler p q Fn = tabulate2 (Ny p) (Nx p) (\<lambda>i j. q ! i ! j + dt p * Fn ! i ! j)"

definition spec_ab2 :: "parms \<Rightarrow> real array2 \<Rightarrow> real array2 \<Rightarrow> real array2 \<Rightarrow> real array2" where
  "spec_ab2 p q Fn Fnm =
     tabulate2 (Ny p) (Nx p) (\<lambda>i j. q ! i ! j + dt p / 2 * (3 * Fn ! i ! j - Fnm ! i ! j))"

definition spec_ab3 ::
  "parms \<Rightarrow> real array2 \<Rightarrow> real array2 \<Rightarrow> real array2 \<Rightarrow> real array2 \<Rightarrow> real array2" where
  "spec_ab3 p q Fn Fnm Fnmm =
     tabulate2 (Ny p) (Nx p)
       (\<lambda>i j. q ! i ! j + dt p / 12 * (23 * Fn ! i ! j - 16 * Fnm ! i ! j + 5 * Fnmm ! i ! j))"

text \<open>One pass of the AB3 regime as the specification describes it: evaluate the flux at
  the current field, record the diagnostics at the index of the step, update, filter, rotate
  the flux history, and hand the field to the rendering hook on every \<open>npt\<close>-th pass.\<close>

definition spec_ab3_pass :: "parms \<Rightarrow> nat \<Rightarrow> lstate \<Rightarrow> lstate" where
  "spec_ab3_pass p ii s =
     (let NL = spec_flux_field p (s_q s);
          q2 = tabulate2 (Ny p) (Nx p)
                 (spec_filter p (spec_ab3 p (s_q s) NL (s_NLn s) (s_NLnm s)));
          s2 = s\<lparr> s_energy := (s_energy s)[ii - 1 := spec_energy p (s_q s)],
                  s_enstr := (s_enstr s)[ii - 1 := spec_enstrophy p (s_q s)],
                  s_mass := (s_mass s)[ii - 1 := spec_mass p (s_q s)],
                  s_q := q2, s_NLnm := s_NLn s, s_NLn := NL \<rparr>
      in if int ii mod npt p = 0
         then s2\<lparr>s_frames := s_frames s2 @ [(real (ii - 1) * dt p, q2)], s_cnt := s_cnt s2 + 1\<rparr>
         else s2)"

subsection \<open>The run of \<open>solve_qg\<close> up to a given number of updates\<close>

text \<open>\<open>state_after p q0 Nt k\<close> is the state of \<open>solve_qg\<close> when \<open>k\<close> updates of the field have
  been made, for \<open>k \<ge> 1\<close>: the Euler step, then the AB2 step, then the loop for the
  indices \<open>3, ..., k\<close>; the diagnostic arrays have the length \<open>Nt\<close> of the whole run.
  \<open>field_at\<close> is the field \<open>q_k\<close> of that state (\<open>q_0\<close> is the initial field), and \<open>flux_at\<close>
  the flux that \<open>flux_qg\<close> returns for it.\<close>

definition state_after :: "parms \<Rightarrow> real array2 \<Rightarrow> nat \<Rightarrow> nat \<Rightarrow> error + lstate" where
  "state_after p q0 Nt k =
     ebind (euler_step p Nt q0) (\<lambda>s0.
       if k \<le> 1 then Inr s0
       else ebind (ab2_step p s0) (\<lambda>s1. ab3_loop p [3..<k + 1] s1))"

definition field_at :: "parms \<Rightarrow> real array2 \<Rightarrow> nat \<Rightarrow> nat \<Rightarrow> real array2" where
  "field_at p q0 Nt k =
     (if k = 0 then q0
      else case state_after p q0 Nt k of Inr s \<Rightarrow> s_q s | Inl e \<Rightarrow> [])"

definition flux_at :: "parms \<Rightarrow> real array2 \<Rightarrow> nat \<Rightarrow> nat \<Rightarrow> real array2" where
  "flux_at p q0 Nt k =
     (case flux_qg (field_at p q0 Nt k) p of Inr (fl, e, z, m) \<Rightarrow> fl | Inl e \<Rightarrow> [])"

subsection \<open>A small configuration\<close>

text \<open>The object that \<open>Parms(Nx=4, Ny=2, Lx=2\<pi>, Ly=\<pi>, g0=1, H0=1, f0=1, beta=0, t0=0, dt=1,
  tf=3, npt=12)\<close> builds, written out, and a field on its grid.  The wavenumbers of this
  grid are the integers \<open>0, 1, 2, -1\<close> in both directions.\<close>

definition grid_4x2 :: parms where
  "grid_4x2 =
     \<lparr> Nx = 4, Ny = 2, Lx = 2 * pi, Ly = pi, g0 = 1, H0 = 1, beta = 0, t0 = 0, dt = 1,
       tf = 3, npt = 12, tplot = 12, dx = pi / 2, dy = pi / 2, F = 0, U = 0, Q_y = 0,
       xx = replicate 2 [- (3 * pi / 4), - (pi / 4), pi / 4, 3 * pi / 4],
       yy = [replicate 4 (- (pi / 4)), replicate 4 (pi / 4)],
       ikx = replicate 4 [0, \<i>, 2 * \<i>, - \<i>],
       iky = [replicate 4 0, replicate 4 \<i>, replicate 4 (2 * \<i>), replicate 4 (- \<i>)],
       K2Fi = [[0, - 1, - (1 / 4), - 1],
               [- 1, - (1 / 2), - (1 / 5), - (1 / 2)],
               [- (1 / 4), - (1 / 5), - (1 / 8), - (1 / 5)],
               [- 1, - (1 / 2), - (1 / 5), - (1 / 2)]],
       sfilt = ew1 (\<lambda>x. exp (- (0.69 * (0.4 * 2) powr (- 1.88 / ln (0.5 * 2 / (0.4 * 2))))
                               * x powr (1.88 / ln (0.5 * 2 / (0.4 * 2)) / 2)))
                 [[0, 1, 4, 1], [1, 2, 5, 2], [4, 5, 8, 5], [1, 2, 5, 2]] \<rparr>"

definition q_demo :: "real array2" where
  "q_demo = [[0, 0, 0, 1], [0, 0, - 1, 0]]"

text \<open>The fields after the Euler step and after the AB2 step of the run from \<open>q_demo\<close> on
  this grid.\<close>

definition q_demo1 :: "real array2" where
  "q_demo1 = [[3 / 80, 0, 0, 83 / 80], [0, 3 / 80, - (77 / 80), 0]]"

definition q_demo2 :: "real array2" where
  "q_demo2 = [[5547 / 64000, - (243 / 64000), - (477 / 64000), 68773 / 64000],
              [297 / 64000, 4107 / 64000, - (59227 / 64000), 423 / 64000]]"

text \<open>The mass sequence of a result of \<open>solve_qg\<close>.\<close>

definition mass_of ::
  "error + (real array2 \<times> real list \<times> real list \<times> real list) \<Rightarrow> error + real list" where
  "mass_of r = map_sum id (snd \<circ> snd \<circ> snd) r"

section \<open>Properties\<close>

subsection \<open>Shapes and entries of the array operations\<close>

lemma ebind_Inr [simp]: "ebind (Inr x) f = f x"
  by (simp add: ebind_def)

lemma ebind_Inl [simp]: "ebind (Inl e) f = Inl e"
  by (simp add: ebind_def)

lemma ebind_eq_Inr: "ebind m f = Inr y \<longleftrightarrow> (\<exists>x. m = Inr x \<and> f x = Inr y)"
  by (cases m) simp_all

lemma has_shape_length: "has_shape A m n \<Longrightarrow> length A = m"
  by (simp add: has_shape_def)

lemma has_shape_row: "has_shape A m n \<Longrightarrow> i < m \<Longrightarrow> length (A ! i) = n"
  by (simp add: has_shape_def list_all_length)

lemma has_shape_ncols: "has_shape A m n \<Longrightarrow> 0 < m \<Longrightarrow> ncols A = n"
  by (cases A) (simp_all add: has_shape_def ncols_def)

lemma has_shapeI: "length A = m \<Longrightarrow> (\<And>i. i < m \<Longrightarrow> length (A ! i) = n) \<Longrightarrow> has_shape A m n"
  by (simp add: has_shape_def list_all_length)

lemma has_shape_ew1: "has_shape A m n \<Longrightarrow> has_shape (ew1 f A) m n"
  by (simp add: has_shape_def ew1_def list_all_length)

lemma ew1_nth: "has_shape A m n \<Longrightarrow> i < m \<Longrightarrow> j < n \<Longrightarrow> ew1 f A ! i ! j = f (A ! i ! j)"
  by (simp add: has_shape_def ew1_def list_all_length)

lemma has_shape_neg: "has_shape A m n \<Longrightarrow> has_shape (neg A) m n"
  by (simp add: has_shape_def neg_def list_all_length)

lemma neg_nth: "has_shape A m n \<Longrightarrow> i < m \<Longrightarrow> j < n \<Longrightarrow> neg A ! i ! j = - (A ! i ! j)"
  by (simp add: has_shape_def neg_def list_all_length)

lemma has_shape_rows_upto: "has_shape A m n \<Longrightarrow> k \<le> m \<Longrightarrow> has_shape (rows_upto k A) k n"
  by (simp add: has_shape_def rows_upto_def list_all_length)

lemma rows_upto_nth: "i < k \<Longrightarrow> rows_upto k A ! i = A ! i"
  by (simp add: rows_upto_def)

lemma has_shape_extend_odd: "has_shape q m n \<Longrightarrow> has_shape (extend_odd q) (2 * m) n"
  by (auto simp add: has_shape_def extend_odd_def vstack_def neg_def flipud_def list_all_length nth_append rev_nth)

lemma extend_odd_nth:
  "has_shape q m n \<Longrightarrow> i < 2 * m \<Longrightarrow> j < n \<Longrightarrow>
   extend_odd q ! i ! j = (if i < m then q ! i ! j else - (q ! (2 * m - 1 - i) ! j))"
  apply (auto simp add: has_shape_def extend_odd_def vstack_def neg_def flipud_def list_all_length nth_append rev_nth)
  apply (subgoal_tac "length q - Suc (i - length q) = 2 * length q - Suc i")
  apply auto
  done

lemma ew2_same_shape:
  assumes "has_shape A m n" "has_shape B m n"
  shows "ew2 f A B = Inr (map2 (map2 f) A B)"
proof -
  have l: "length A = m" "length B = m" using assms by (simp_all add: has_shape_def)
  have nc: "ncols A = ncols B"
    using assms by (cases A; cases B) (simp_all add: has_shape_def ncols_def)
  have rows: "\<And>r s. (r, s) \<in> set (zip A B) \<Longrightarrow> length r = n \<and> length s = n"
    using assms by (auto simp add: has_shape_def list_all_iff dest: set_zip_leftD set_zip_rightD)
  have nn: "A \<noteq> [] \<Longrightarrow> ncols A = n"
    using assms by (cases A) (simp_all add: has_shape_def ncols_def)
  have "map2 (\<lambda>r s. map2 f (stretch (ncols A) r) (stretch (ncols A) s)) A B = map2 (map2 f) A B"
  proof (cases "A = []")
    case True then show ?thesis by simp
  next
    case False
    then show ?thesis using rows nn by (auto simp add: stretch_def)
  qed
  then show ?thesis
    by (simp add: ew2_def bdim_def l nc stretch_def)
qed

lemma has_shape_map2:
  assumes "has_shape A m n" "has_shape B m n"
  shows "has_shape (map2 (map2 f) A B) m n"
  using assms by (simp add: has_shape_def list_all_length)

lemma map2_nth2:
  assumes "has_shape A m n" "has_shape B m n" "i < m" "j < n"
  shows "map2 (map2 f) A B ! i ! j = f (A ! i ! j) (B ! i ! j)"
  using assms by (simp add: has_shape_def list_all_length)

lemma array2_eqI:
  assumes "has_shape A m n" "has_shape B m n"
    and "\<And>i j. i < m \<Longrightarrow> j < n \<Longrightarrow> A ! i ! j = B ! i ! j"
  shows "A = B"
proof (rule nth_equalityI)
  show "length A = length B" using assms by (simp add: has_shape_def)
next
  fix i assume i: "i < length A"
  then have im: "i < m" using assms by (simp add: has_shape_def)
  show "A ! i = B ! i"
    using assms im by (intro nth_equalityI) (simp_all add: has_shape_row)
qed

lemma has_shape_tabulate2: "has_shape (tabulate2 M N f) M N"
  by (simp add: has_shape_def tabulate2_def list_all_length)

lemma tabulate2_nth: "i < M \<Longrightarrow> j < N \<Longrightarrow> tabulate2 M N f ! i ! j = f i j"
  by (simp add: tabulate2_def)

lemma length_tabulate2: "length (tabulate2 M N f) = M"
  by (simp add: tabulate2_def)

lemma ncols_tabulate2: "0 < M \<Longrightarrow> ncols (tabulate2 M N f) = N"
  using has_shape_ncols [OF has_shape_tabulate2] by blast

lemma tabulate2_cong:
  "(\<And>i j. i < M \<Longrightarrow> j < N \<Longrightarrow> f i j = g i j) \<Longrightarrow> tabulate2 M N f = tabulate2 M N g"
  by (simp add: tabulate2_def)

lemma array2_as_tabulate2: "has_shape A M N \<Longrightarrow> A = tabulate2 M N (\<lambda>i j. A ! i ! j)"
  unfolding has_shape_def tabulate2_def list_all_length
  by (auto intro!: nth_equalityI)

lemma ew1_tabulate2: "ew1 f (tabulate2 M N g) = tabulate2 M N (\<lambda>i j. f (g i j))"
  by (simp add: ew1_def tabulate2_def comp_def)

lemma neg_tabulate2: "neg (tabulate2 M N g) = tabulate2 M N (\<lambda>i j. - g i j)"
  by (simp add: neg_def tabulate2_def comp_def)

lemma rows_upto_tabulate2: "k \<le> M \<Longrightarrow> rows_upto k (tabulate2 M N g) = tabulate2 k N g"
  by (simp add: rows_upto_def tabulate2_def take_map)

lemma ew2_tabulate2:
  "ew2 f (tabulate2 M N g) (tabulate2 M N h) = Inr (tabulate2 M N (\<lambda>i j. f (g i j) (h i j)))"
proof -
  have "map2 (map2 f) (tabulate2 M N g) (tabulate2 M N h) = tabulate2 M N (\<lambda>i j. f (g i j) (h i j))"
    by (rule array2_eqI [where m = M and n = N])
       (simp_all add: has_shape_map2 has_shape_tabulate2
          map2_nth2 [OF has_shape_tabulate2 has_shape_tabulate2] tabulate2_nth)
  then show ?thesis
    by (simp add: ew2_same_shape [OF has_shape_tabulate2 has_shape_tabulate2])
qed

lemma extend_odd_tabulate2:
  "extend_odd (tabulate2 M N g) = tabulate2 (2 * M) N (spec_ext M (tabulate2 M N g))"
  by (rule array2_eqI [where m = "2 * M" and n = N])
     (simp_all add: has_shape_extend_odd has_shape_tabulate2 tabulate2_nth
        extend_odd_nth [OF has_shape_tabulate2] spec_ext_def)

lemma dft2_tabulate2:
  "0 < M \<Longrightarrow> dft2 sg (tabulate2 M N g) =
     (\<lambda>k l. \<Sum>m<M. \<Sum>n<N. g m n * twiddle M (sg * int (k * m)) * twiddle N (sg * int (l * n)))"
  by (intro ext) (simp add: dft2_def length_tabulate2 ncols_tabulate2 tabulate2_nth)

lemma fftn_tabulate2:
  "0 < M \<Longrightarrow> 0 < N \<Longrightarrow>
   fftn (tabulate2 M N g) =
     Inr (tabulate2 M N (\<lambda>k l. \<Sum>m<M. \<Sum>n<N.
            g m n * twiddle M (- int (k * m)) * twiddle N (- int (l * n))))"
  by (simp add: fftn_def length_tabulate2 ncols_tabulate2 dft2_tabulate2)

lemma ifftn_tabulate2:
  "0 < M \<Longrightarrow> 0 < N \<Longrightarrow> ifftn (tabulate2 M N g) = Inr (tabulate2 M N (spec_cinv M N g))"
  by (simp add: ifftn_def length_tabulate2 ncols_tabulate2 dft2_tabulate2 spec_cinv_def [abs_def])

lemma Re_spec_cinv: "ew1 Re (tabulate2 M N (spec_cinv M N g)) = tabulate2 M N (spec_inv M N g)"
  by (simp add: ew1_tabulate2 spec_inv_def [abs_def])

lemma sum_list_tabulate: "sum_list (map f [0..<n]) = (\<Sum>i<n. f i)"
  by (simp add: sum_list_sum_nth atLeast0LessThan)

lemma mean2_tabulate2: "0 < M \<Longrightarrow> mean2 (tabulate2 M N g) = spec_mean M N (g :: nat \<Rightarrow> nat \<Rightarrow> real)"
proof -
  have "sum_list (map sum_list (tabulate2 M N g)) = (\<Sum>i<M. \<Sum>j<N. g i j)"
    by (simp add: tabulate2_def comp_def sum_list_tabulate)
  then show ?thesis if "0 < M"
    using that by (simp add: mean2_def spec_mean_def length_tabulate2 ncols_tabulate2)
qed

lemma extend_odd_eq_tabulate2:
  assumes "has_shape q ny nx"
  shows "extend_odd q = tabulate2 (2 * ny) nx (spec_ext ny q)"
  by (rule array2_eqI [where m = "2 * ny" and n = nx])
     (simp_all add: has_shape_extend_odd [OF assms] has_shape_tabulate2 tabulate2_nth
        extend_odd_nth [OF assms] spec_ext_def)

lemma fftn_extend_odd:
  assumes "has_shape q ny nx" "0 < ny" "0 < nx"
  shows "fftn (ew1 complex_of_real (extend_odd q)) = Inr (tabulate2 (2 * ny) nx (spec_hat ny nx q))"
  using assms
  by (simp add: extend_odd_eq_tabulate2 [OF assms(1)] ew1_tabulate2 fftn_tabulate2
        spec_hat_def [abs_def])

lemma ew2_left_shape:
  assumes "has_shape A M N"
  shows "ew2 f A (tabulate2 M N h) = Inr (tabulate2 M N (\<lambda>k l. f (A ! k ! l) (h k l)))"
proof -
  have "ew2 f (tabulate2 M N (\<lambda>i j. A ! i ! j)) (tabulate2 M N h)
        = Inr (tabulate2 M N (\<lambda>k l. f (A ! k ! l) (h k l)))"
    by (rule ew2_tabulate2)
  then show ?thesis
    using array2_as_tabulate2 [OF assms] by simp
qed

lemma ew2_right_shape:
  assumes "has_shape B M N"
  shows "ew2 f (tabulate2 M N h) B = Inr (tabulate2 M N (\<lambda>k l. f (h k l) (B ! k ! l)))"
proof -
  have "ew2 f (tabulate2 M N h) (tabulate2 M N (\<lambda>i j. B ! i ! j))
        = Inr (tabulate2 M N (\<lambda>k l. f (h k l) (B ! k ! l)))"
    by (rule ew2_tabulate2)
  then show ?thesis
    using array2_as_tabulate2 [OF assms] by simp
qed

lemma neg_as_tabulate2:
  assumes "has_shape A M N"
  shows "neg A = tabulate2 M N (\<lambda>i j. - (A ! i ! j))"
  using neg_tabulate2 [of M N "\<lambda>i j. A ! i ! j"] array2_as_tabulate2 [OF assms] by simp

lemma flux_fields_eq:
  assumes sh: "spectral_shape p" and q: "has_shape q (Ny p) (Nx p)"
  shows "flux_fields q p =
           Inr \<lparr> f_qx = tabulate2 (Ny p) (Nx p) (spec_qx p q),
                 f_qy = tabulate2 (Ny p) (Nx p) (spec_qy p q),
                 f_u = tabulate2 (Ny p) (Nx p) (spec_u p q),
                 f_v = tabulate2 (Ny p) (Nx p) (spec_v p q),
                 f_psi = tabulate2 (Ny p) (Nx p) (spec_psi p q) \<rparr>"
proof -
  from sh have pos: "0 < Nx p" "0 < Ny p" "0 < 2 * Ny p"
    and a: "has_shape (ikx p) (2 * Ny p) (Nx p)" "has_shape (iky p) (2 * Ny p) (Nx p)"
           "has_shape (K2Fi p) (2 * Ny p) (Nx p)"
    by (simp_all add: spectral_shape_def)
  show ?thesis
    unfolding flux_fields_def Let_def
    by (simp add: fftn_extend_odd [OF q pos(2) pos(1)] ew2_left_shape [OF a(1)]
          ew2_left_shape [OF a(2)] ew2_left_shape [OF a(3)]
          ew2_left_shape [OF has_shape_neg [OF a(2)]] neg_nth [OF a(2)]
          ifftn_tabulate2 pos Re_spec_cinv rows_upto_tabulate2
          spec_qx_def spec_qy_def spec_u_def spec_v_def spec_psi_def spec_psi_hat_def [abs_def]
          rc_mult_def cong: tabulate2_cong)
qed

lemma ew1_as_tabulate2:
  assumes "has_shape A M N"
  shows "ew1 f A = tabulate2 M N (\<lambda>i j. f (A ! i ! j))"
  using ew1_tabulate2 [of f M N "\<lambda>i j. A ! i ! j"] array2_as_tabulate2 [OF assms] by simp

lemma flux_qg_eq:
  assumes sh: "spectral_shape p" and q: "has_shape q (Ny p) (Nx p)"
  shows "flux_qg q p =
           Inr (tabulate2 (Ny p) (Nx p) (spec_flux p q),
                spec_energy p q, spec_enstrophy p q, spec_mass p q)"
proof -
  from sh have pos: "0 < Nx p" "0 < Ny p"
    by (simp_all add: spectral_shape_def)
  show ?thesis
    unfolding flux_qg_def Let_def
    by (simp add: flux_fields_eq [OF sh q] ew1_tabulate2 neg_tabulate2 ew2_tabulate2
          mean2_tabulate2 pos ew1_as_tabulate2 [OF q]
          spec_flux_def [abs_def] spec_energy_def spec_enstrophy_def spec_mass_def)
qed

lemma length_kx_index: "0 < nx \<Longrightarrow> even nx \<Longrightarrow> length (kx_index nx) = nx"
  by (auto simp add: kx_index_def elim!: evenE)

lemma length_kx_index_pos: "0 < length (kx_index nx)"
  by (simp add: kx_index_def)

lemma length_ky_index: "0 < ny \<Longrightarrow> length (ky_index ny) = 2 * ny"
  by (simp add: ky_index_def)

lemma kx_index_0: "kx_index nx ! 0 = 0"
  by (simp add: kx_index_def nth_append upto.simps)

lemma ky_index_0: "ky_index ny ! 0 = 0"
  by (simp add: ky_index_def nth_append upto.simps)

lemma has_shape_meshgrid:
  "has_shape (fst (meshgrid x y)) (length y) (length x)"
  "has_shape (snd (meshgrid x y)) (length y) (length x)"
  by (simp_all add: meshgrid_def has_shape_def list_all_length)

lemma meshgrid_nth:
  "i < length y \<Longrightarrow> j < length x \<Longrightarrow> fst (meshgrid x y) ! i ! j = x ! j"
  "i < length y \<Longrightarrow> j < length x \<Longrightarrow> snd (meshgrid x y) ! i ! j = y ! i"
  by (simp_all add: meshgrid_def)

lemma set00_shape:
  assumes "has_shape A M N" "0 < M" "0 < N"
  shows "\<exists>B. set00 A v = Inr B \<and> has_shape B M N \<and> B ! 0 ! 0 = v"
proof -
  have l: "length A = M" and n: "ncols A = N" and r: "length (A ! 0) = N"
    using assms by (simp_all add: has_shape_length has_shape_ncols has_shape_row)
  have "has_shape (A[0 := (A ! 0)[0 := v]]) M N"
    using assms(1) by (auto simp add: has_shape_def list_all_length nth_list_update)
  then show ?thesis
    using assms(2,3) l n r by (simp add: set00_def)
qed

lemma inversion_kernel_ok:
  assumes "has_shape kxx M N" "has_shape kyy M N" "0 < M" "0 < N"
  shows "\<exists>K. inversion_kernel kxx kyy f = Inr K \<and> has_shape K M N
             \<and> K ! 0 ! 0 = (if f = 0 then 0 else - 1 / f)"
proof -
  let ?k2 = "map2 (map2 (+)) (ew1 (\<lambda>x. x ^ 2) kxx) (ew1 (\<lambda>x. x ^ 2) kyy)"
  have e: "ew2 (+) (ew1 (\<lambda>x. x ^ 2) kxx) (ew1 (\<lambda>x. x ^ 2) kyy) = Inr ?k2"
    by (rule ew2_same_shape [OF has_shape_ew1 [OF assms(1)] has_shape_ew1 [OF assms(2)]])
  have s: "has_shape (ew1 (\<lambda>x. - 1 / (x + f)) ?k2) M N"
    by (intro has_shape_ew1 has_shape_map2 assms)
  show ?thesis
  proof (cases "f = 0")
    case True
    then show ?thesis
      using set00_shape [OF s assms(3,4), of 0]
      by (simp add: inversion_kernel_def e)
  next
    case False
    then show ?thesis
      using set00_shape [OF s assms(3,4), of "- 1 / f"]
      by (simp add: inversion_kernel_def e py_div_def)
  qed
qed

lemma filter_kernel_ok:
  assumes "has_shape kxx M N" "has_shape kyy M N"
  shows "\<exists>sf. filter_kernel kx kxx kyy = Inr sf \<and> has_shape sf M N"
proof -
  let ?k2 = "map2 (map2 (+)) (ew1 (\<lambda>x. x ^ 2) kxx) (ew1 (\<lambda>x. x ^ 2) kyy)"
  have e: "ew2 (+) (ew1 (\<lambda>x. x ^ 2) kxx) (ew1 (\<lambda>x. x ^ 2) kyy) = Inr ?k2"
    by (rule ew2_same_shape [OF has_shape_ew1 [OF assms(1)] has_shape_ew1 [OF assms(2)]])
  show ?thesis
    by (simp add: filter_kernel_def Let_def e has_shape_ew1 has_shape_map2 assms)
qed

lemma wavenumbers_ok:
  assumes "lx \<noteq> 0" "ly \<noteq> 0"
  shows "wavenumbers nx ny lx ly =
           Inr (map (\<lambda>j. 2 * pi / lx * real_of_int j) (kx_index nx),
                map (\<lambda>j. pi / ly * real_of_int j) (ky_index ny))"
  using assms by (simp add: wavenumbers_def py_div_def)

lemma Parms_init_fields:
  assumes "Parms_init nx ny lx ly g h f0 b t0' dt' tf' npt' = Inr p"
  shows "Nx p = nx \<and> Ny p = ny \<and> F p = 0 \<and> U p = 0 \<and> Q_y p = b
         \<and> dt p = dt' \<and> tf p = tf' \<and> npt p = npt' \<and> beta p = b
         \<and> (\<exists>kx ky. wavenumbers nx ny lx ly = Inr (kx, ky)
              \<and> inversion_kernel (fst (meshgrid kx ky)) (snd (meshgrid kx ky)) 0 = Inr (K2Fi p)
              \<and> filter_kernel kx (fst (meshgrid kx ky)) (snd (meshgrid kx ky)) = Inr (sfilt p)
              \<and> ikx p = ew1 (\<lambda>k. \<i> * complex_of_real k) (fst (meshgrid kx ky))
              \<and> iky p = ew1 (\<lambda>k. \<i> * complex_of_real k) (snd (meshgrid kx ky)))"
  using assms
  by (auto simp add: Parms_init_def Let_def ebind_eq_Inr case_prod_beta)

lemma Parms_init_ok:
  assumes "0 < nx" "0 < ny" "lx \<noteq> 0" "ly \<noteq> 0" "g * h \<noteq> 0"
  shows "\<exists>p. Parms_init nx ny lx ly g h f0 b t0' dt' tf' npt' = Inr p"
proof -
  let ?kx = "map (\<lambda>j. 2 * pi / lx * real_of_int j) (kx_index nx)"
  let ?ky = "map (\<lambda>j. pi / ly * real_of_int j) (ky_index ny)"
  have w: "wavenumbers nx ny lx ly = Inr (?kx, ?ky)"
    by (rule wavenumbers_ok [OF assms(3,4)])
  have pos: "0 < length ?ky" "0 < length ?kx"
    using assms(2) length_kx_index_pos [of nx] by (simp_all add: length_ky_index)
  obtain K where K: "inversion_kernel (fst (meshgrid ?kx ?ky)) (snd (meshgrid ?kx ?ky)) 0 = Inr K"
    using inversion_kernel_ok [OF has_shape_meshgrid pos] by blast
  obtain sf where sf: "filter_kernel ?kx (fst (meshgrid ?kx ?ky)) (snd (meshgrid ?kx ?ky)) = Inr sf"
    using filter_kernel_ok [OF has_shape_meshgrid] by blast
  show ?thesis
    using assms K sf
    by (simp add: Parms_init_def Let_def w py_div_def case_prod_beta)
qed

lemma Parms_init_shape:
  assumes "Parms_init nx ny lx ly g h f0 b t0' dt' tf' npt' = Inr p"
    and "0 < nx" "even nx" "0 < ny"
  shows "spectral_shape p"
proof -
  from Parms_init_fields [OF assms(1)] obtain kx ky where
    n: "Nx p = nx" "Ny p = ny"
    and w: "wavenumbers nx ny lx ly = Inr (kx, ky)"
    and K: "inversion_kernel (fst (meshgrid kx ky)) (snd (meshgrid kx ky)) 0 = Inr (K2Fi p)"
    and sf: "filter_kernel kx (fst (meshgrid kx ky)) (snd (meshgrid kx ky)) = Inr (sfilt p)"
    and ik: "ikx p = ew1 (\<lambda>k. \<i> * complex_of_real k) (fst (meshgrid kx ky))"
            "iky p = ew1 (\<lambda>k. \<i> * complex_of_real k) (snd (meshgrid kx ky))"
    by blast
  from w have l: "length kx = nx" "length ky = 2 * ny"
    using assms(2-4)
    by (auto simp add: wavenumbers_def ebind_eq_Inr length_kx_index length_ky_index)
  have m: "has_shape (fst (meshgrid kx ky)) (2 * ny) nx" "has_shape (snd (meshgrid kx ky)) (2 * ny) nx"
    using has_shape_meshgrid [of kx ky] l by simp_all
  have "has_shape (K2Fi p) (2 * ny) nx"
    using inversion_kernel_ok [OF m, of 0] K assms(2,4) by auto
  moreover have "has_shape (sfilt p) (2 * ny) nx"
    using filter_kernel_ok [OF m, of kx] sf by auto
  ultimately show ?thesis
    using assms(2,4) m by (simp add: spectral_shape_def n ik has_shape_ew1)
qed

lemma ew2_as_tabulate2:
  assumes "has_shape A M N" "has_shape B M N"
  shows "ew2 f A B = Inr (tabulate2 M N (\<lambda>i j. f (A ! i ! j) (B ! i ! j)))"
  using ew2_left_shape [OF assms(1), of f "\<lambda>i j. B ! i ! j"] array2_as_tabulate2 [OF assms(2)]
  by simp

lemma spectral_filter_eq:
  assumes sh: "spectral_shape p" and q: "has_shape q (Ny p) (Nx p)"
  shows "spectral_filter p q = Inr (tabulate2 (Ny p) (Nx p) (spec_filter p q))"
proof -
  from sh have pos: "0 < Nx p" "0 < Ny p" "0 < 2 * Ny p"
    and a: "has_shape (sfilt p) (2 * Ny p) (Nx p)"
    by (simp_all add: spectral_shape_def)
  show ?thesis
    unfolding spectral_filter_def Let_def
    by (simp add: fftn_extend_odd [OF q pos(2) pos(1)] ew2_left_shape [OF a]
          ifftn_tabulate2 pos Re_spec_cinv rows_upto_tabulate2 spec_filter_def rc_mult_def)
qed

lemma store_diag_eq:
  assumes "i < length (s_energy s)" "i < length (s_enstr s)" "i < length (s_mass s)"
  shows "store_diag i e z m s =
           Inr (s\<lparr>s_energy := (s_energy s)[i := e], s_enstr := (s_enstr s)[i := z],
                  s_mass := (s_mass s)[i := m]\<rparr>)"
  using assms by (simp add: store_diag_def setitem_def)

lemma store_diag_IndexError:
  assumes "length (s_energy s) \<le> i"
  shows "store_diag i e z m s = Inl IndexError"
  using assms by (simp add: store_diag_def setitem_def)

lemma euler_step_eq:
  assumes sh: "spectral_shape p" and q: "has_shape q0 (Ny p) (Nx p)" and nt: "0 < Nt"
  shows "euler_step p Nt q0 =
           Inr \<lparr> s_q = spec_euler p q0 (spec_flux_field p q0), s_NLn = [],
                 s_NLnm = spec_flux_field p q0,
                 s_energy = (replicate Nt 0)[0 := spec_energy p q0],
                 s_enstr = (replicate Nt 0)[0 := spec_enstrophy p q0],
                 s_mass = (replicate Nt 0)[0 := spec_mass p q0],
                 s_cnt = 0, s_frames = [] \<rparr>"
  unfolding euler_step_def
  using nt
  by (simp add: flux_qg_eq [OF sh q] store_diag_eq ew1_tabulate2 ew2_left_shape [OF q]
        spec_euler_def spec_flux_field_def tabulate2_nth cong: tabulate2_cong)

lemma ab2_step_eq:
  assumes sh: "spectral_shape p" and q: "has_shape (s_q s) (Ny p) (Nx p)"
    and f: "has_shape (s_NLnm s) (Ny p) (Nx p)"
    and nt: "1 < length (s_energy s)" "1 < length (s_enstr s)" "1 < length (s_mass s)"
  shows "ab2_step p s =
           Inr (s\<lparr> s_NLn := spec_flux_field p (s_q s),
                   s_energy := (s_energy s)[1 := spec_energy p (s_q s)],
                   s_enstr := (s_enstr s)[1 := spec_enstrophy p (s_q s)],
                   s_mass := (s_mass s)[1 := spec_mass p (s_q s)],
                   s_q := spec_ab2 p (s_q s) (spec_flux_field p (s_q s)) (s_NLnm s),
                   s_cnt := 2 \<rparr>)"
  unfolding ab2_step_def
  using nt
  by (simp add: flux_qg_eq [OF sh q] store_diag_eq ew1_tabulate2 ew2_left_shape [OF q]
        ew2_right_shape [OF f]
        spec_ab2_def spec_flux_field_def tabulate2_nth cong: tabulate2_cong)

lemma has_shape_spec_ab3: "has_shape (spec_ab3 p q a b c) (Ny p) (Nx p)"
  by (simp add: spec_ab3_def has_shape_tabulate2)

lemma ab3_step_eq:
  assumes sh: "spectral_shape p" and st: "state_shape p Nt s"
    and ii: "0 < ii" "ii \<le> Nt" and np: "npt p \<noteq> 0"
  shows "ab3_step p ii s = Inr (spec_ab3_pass p ii s)"
proof -
  from st have q: "has_shape (s_q s) (Ny p) (Nx p)"
    and f: "has_shape (s_NLn s) (Ny p) (Nx p)" "has_shape (s_NLnm s) (Ny p) (Nx p)"
    and l: "length (s_energy s) = Nt" "length (s_enstr s) = Nt" "length (s_mass s) = Nt"
    by (simp_all add: state_shape_def)
  have i: "ii - 1 < Nt" using ii by simp
  let ?NL = "spec_flux_field p (s_q s)"
  have upd: "tabulate2 (Ny p) (Nx p)
               (\<lambda>k l. s_q s ! k ! l
                  + dt p / 12 * (23 * spec_flux p (s_q s) k l - 16 * s_NLn s ! k ! l
                                   + 5 * s_NLnm s ! k ! l))
             = spec_ab3 p (s_q s) ?NL (s_NLn s) (s_NLnm s)"
    by (simp add: spec_ab3_def spec_flux_field_def tabulate2_nth del: times_divide_eq_left
          cong: tabulate2_cong)
  show ?thesis
    unfolding ab3_step_def spec_ab3_pass_def Let_def
    using np i
    by (simp add: flux_qg_eq [OF sh q] store_diag_eq l ew1_tabulate2
          ew1_as_tabulate2 [OF f(1)] ew1_as_tabulate2 [OF f(2)] ew2_tabulate2
          ew2_left_shape [OF q] upd [unfolded spec_flux_field_def]
          spectral_filter_eq [OF sh has_shape_spec_ab3]
          spec_flux_field_def del: times_divide_eq_left)
qed

lemma ab3_step_ZeroDivisionError:
  assumes sh: "spectral_shape p" and st: "state_shape p Nt s"
    and ii: "0 < ii" "ii \<le> Nt" and np: "npt p = 0"
  shows "ab3_step p ii s = Inl ZeroDivisionError"
proof -
  from st have q: "has_shape (s_q s) (Ny p) (Nx p)"
    and f: "has_shape (s_NLn s) (Ny p) (Nx p)" "has_shape (s_NLnm s) (Ny p) (Nx p)"
    and l: "length (s_energy s) = Nt" "length (s_enstr s) = Nt" "length (s_mass s) = Nt"
    by (simp_all add: state_shape_def)
  have i: "ii - 1 < Nt" using ii by simp
  let ?NL = "spec_flux_field p (s_q s)"
  have upd: "tabulate2 (Ny p) (Nx p)
               (\<lambda>k l. s_q s ! k ! l
                  + dt p / 12 * (23 * spec_flux p (s_q s) k l - 16 * s_NLn s ! k ! l
                                   + 5 * s_NLnm s ! k ! l))
             = spec_ab3 p (s_q s) ?NL (s_NLn s) (s_NLnm s)"
    by (simp add: spec_ab3_def spec_flux_field_def tabulate2_nth del: times_divide_eq_left
          cong: tabulate2_cong)
  show ?thesis
    unfolding ab3_step_def Let_def
    using np i
    by (simp add: flux_qg_eq [OF sh q] store_diag_eq l ew1_tabulate2
          ew1_as_tabulate2 [OF f(1)] ew1_as_tabulate2 [OF f(2)] ew2_tabulate2
          ew2_left_shape [OF q] upd [unfolded spec_flux_field_def]
          spectral_filter_eq [OF sh has_shape_spec_ab3]
          spec_flux_field_def del: times_divide_eq_left)
qed

lemma state_shape_spec_ab3_pass:
  assumes "state_shape p Nt s"
  shows "state_shape p Nt (spec_ab3_pass p ii s)"
  using assms
  by (simp add: state_shape_def spec_ab3_pass_def Let_def has_shape_tabulate2 spec_flux_field_def)

lemma ab3_loop_append: "ab3_loop p (xs @ ys) s = ebind (ab3_loop p xs s) (ab3_loop p ys)"
  by (induction xs arbitrary: s) (simp_all add: ebind_def split: sum.splits)

lemma ebind_assoc: "ebind (ebind m f) g = ebind m (\<lambda>x. ebind (f x) g)"
  by (cases m) simp_all

lemma state_after_Suc:
  assumes "2 \<le> k"
  shows "state_after p q0 Nt (Suc k) = ebind (state_after p q0 Nt k) (ab3_step p (Suc k))"
proof -
  have "[3..<Suc k + 1] = [3..<k + 1] @ [Suc k]"
    using assms by simp
  then show ?thesis
    using assms
    by (cases "euler_step p Nt q0")
       (simp_all add: state_after_def ab3_loop_append ebind_assoc ebind_def split: sum.splits)
qed

lemma state_shape_euler:
  assumes sh: "spectral_shape p" and q: "has_shape q0 (Ny p) (Nx p)" and nt: "0 < Nt"
  shows "\<exists>s0. euler_step p Nt q0 = Inr s0 \<and> has_shape (s_q s0) (Ny p) (Nx p)
           \<and> s_q s0 = spec_euler p q0 (spec_flux_field p q0)
           \<and> s_NLnm s0 = spec_flux_field p q0
           \<and> length (s_energy s0) = Nt \<and> length (s_enstr s0) = Nt \<and> length (s_mass s0) = Nt
           \<and> s_energy s0 ! 0 = spec_energy p q0 \<and> s_enstr s0 ! 0 = spec_enstrophy p q0
           \<and> s_mass s0 ! 0 = spec_mass p q0 \<and> s_frames s0 = []"
  using nt by (simp add: euler_step_eq [OF sh q nt] spec_euler_def has_shape_tabulate2)

lemma field_at_0: "field_at p q0 Nt 0 = q0"
  by (simp add: field_at_def)

lemma field_at_state: "0 < k \<Longrightarrow> state_after p q0 Nt k = Inr s \<Longrightarrow> field_at p q0 Nt k = s_q s"
  by (simp add: field_at_def)

lemma flux_at_eq:
  assumes "spectral_shape p" "has_shape (field_at p q0 Nt k) (Ny p) (Nx p)"
  shows "flux_at p q0 Nt k = spec_flux_field p (field_at p q0 Nt k)"
  by (simp add: flux_at_def flux_qg_eq [OF assms] spec_flux_field_def)

lemma flux_qg_at:
  assumes "spectral_shape p" "has_shape (field_at p q0 Nt k) (Ny p) (Nx p)"
  shows "flux_qg (field_at p q0 Nt k) p =
           Inr (flux_at p q0 Nt k, spec_energy p (field_at p q0 Nt k),
                spec_enstrophy p (field_at p q0 Nt k), spec_mass p (field_at p q0 Nt k))"
  by (simp add: flux_at_def flux_qg_eq [OF assms])

lemma state_after_1:
  "state_after p q0 Nt (Suc 0) = euler_step p Nt q0"
  by (cases "euler_step p Nt q0") (simp_all add: state_after_def)

lemma state_after_2:
  "state_after p q0 Nt 2 = ebind (euler_step p Nt q0) (ab2_step p)"
  by (cases "euler_step p Nt q0") (simp_all add: state_after_def ebind_def split: sum.splits)

lemma bootstrap_state:
  assumes sh: "spectral_shape p" and q: "has_shape q0 (Ny p) (Nx p)" and nt: "2 \<le> Nt"
  shows "\<exists>s0 s. state_after p q0 Nt 1 = Inr s0 \<and> state_after p q0 Nt 2 = Inr s
           \<and> state_shape p Nt s
           \<and> field_at p q0 Nt 1 = spec_euler p q0 (flux_at p q0 Nt 0)
           \<and> s_q s0 = field_at p q0 Nt 1
           \<and> s_q s = spec_ab2 p (field_at p q0 Nt 1) (flux_at p q0 Nt 1) (flux_at p q0 Nt 0)
           \<and> s_NLn s = flux_at p q0 Nt 1 \<and> s_NLnm s = flux_at p q0 Nt 0
           \<and> s_cnt s = 2 \<and> s_frames s = []
           \<and> (\<forall>i<2. s_energy s ! i = spec_energy p (field_at p q0 Nt i)
                    \<and> s_enstr s ! i = spec_enstrophy p (field_at p q0 Nt i)
                    \<and> s_mass s ! i = spec_mass p (field_at p q0 Nt i))"
proof -
  have nt0: "0 < Nt" using nt by simp
  obtain s0 where s0: "euler_step p Nt q0 = Inr s0"
    and q1: "has_shape (s_q s0) (Ny p) (Nx p)"
    and q1e: "s_q s0 = spec_euler p q0 (spec_flux_field p q0)"
    and f0: "s_NLnm s0 = spec_flux_field p q0"
    and l: "length (s_energy s0) = Nt" "length (s_enstr s0) = Nt" "length (s_mass s0) = Nt"
    and d0: "s_energy s0 ! 0 = spec_energy p q0" "s_enstr s0 ! 0 = spec_enstrophy p q0"
            "s_mass s0 ! 0 = spec_mass p q0"
    and fr: "s_frames s0 = []"
    using state_shape_euler [OF sh q nt0] by blast
  have a1: "state_after p q0 Nt (Suc 0) = Inr s0"
    by (simp add: state_after_1 s0)
  have fa1: "field_at p q0 Nt (Suc 0) = s_q s0"
    by (simp add: field_at_state [OF _ a1])
  have fx0: "flux_at p q0 Nt 0 = spec_flux_field p q0"
    using flux_at_eq [OF sh, of q0 Nt 0] q by (simp add: field_at_0)
  have fx1: "flux_at p q0 Nt (Suc 0) = spec_flux_field p (s_q s0)"
    using flux_at_eq [OF sh, of q0 Nt "Suc 0"] q1 by (simp add: fa1)
  have f0s: "has_shape (s_NLnm s0) (Ny p) (Nx p)"
    by (simp add: f0 spec_flux_field_def has_shape_tabulate2)
  have l1: "1 < length (s_energy s0)" "1 < length (s_enstr s0)" "1 < length (s_mass s0)"
    using nt l by simp_all
  note ab2 = ab2_step_eq [OF sh q1 f0s l1]
  show ?thesis
    apply (rule exI [of _ s0])
    apply (rule exI [of _ "projr (ab2_step p s0)"])
    using nt
    apply (simp add: a1 state_after_2 s0 ab2 state_shape_def fa1 fx0 fx1 q1e f0 l d0 fr
        spec_flux_field_def spec_ab2_def has_shape_tabulate2 field_at_0 less_2_cases_iff)
    done
qed

lemma spec_ab3_pass_sel:
  "s_q (spec_ab3_pass p ii s) =
     tabulate2 (Ny p) (Nx p)
       (spec_filter p (spec_ab3 p (s_q s) (spec_flux_field p (s_q s)) (s_NLn s) (s_NLnm s)))"
  "s_NLn (spec_ab3_pass p ii s) = spec_flux_field p (s_q s)"
  "s_NLnm (spec_ab3_pass p ii s) = s_NLn s"
  "s_energy (spec_ab3_pass p ii s) = (s_energy s)[ii - 1 := spec_energy p (s_q s)]"
  "s_enstr (spec_ab3_pass p ii s) = (s_enstr s)[ii - 1 := spec_enstrophy p (s_q s)]"
  "s_mass (spec_ab3_pass p ii s) = (s_mass s)[ii - 1 := spec_mass p (s_q s)]"
  by (simp_all add: spec_ab3_pass_def Let_def)

lemma traj_invariant:
  assumes sh: "spectral_shape p" and q: "has_shape q0 (Ny p) (Nx p)"
    and np: "npt p \<noteq> 0 \<or> Nt = 2"
    and k: "2 \<le> k"
  shows "k \<le> Nt \<longrightarrow>
         (\<exists>s. state_after p q0 Nt k = Inr s \<and> state_shape p Nt s
            \<and> s_NLn s = flux_at p q0 Nt (k - 1) \<and> s_NLnm s = flux_at p q0 Nt (k - 2)
            \<and> (\<forall>i<k. s_energy s ! i = spec_energy p (field_at p q0 Nt i)
                    \<and> s_enstr s ! i = spec_enstrophy p (field_at p q0 Nt i)
                    \<and> s_mass s ! i = spec_mass p (field_at p q0 Nt i)))"
  using k
proof (induction k rule: nat_induct_at_least)
  case base
  show ?case
  proof
    assume "2 \<le> Nt"
    from bootstrap_state [OF sh q this] show "\<exists>s. state_after p q0 Nt 2 = Inr s \<and> state_shape p Nt s
            \<and> s_NLn s = flux_at p q0 Nt (2 - 1) \<and> s_NLnm s = flux_at p q0 Nt (2 - 2)
            \<and> (\<forall>i<2. s_energy s ! i = spec_energy p (field_at p q0 Nt i)
                    \<and> s_enstr s ! i = spec_enstrophy p (field_at p q0 Nt i)
                    \<and> s_mass s ! i = spec_mass p (field_at p q0 Nt i))"
      by auto
  qed
next
  case (Suc k)
  show ?case
  proof
    assume le: "Suc k \<le> Nt"
    with Suc.hyps have npz: "npt p \<noteq> 0" using np by auto
    from le Suc.IH obtain s where s: "state_after p q0 Nt k = Inr s"
      and st: "state_shape p Nt s"
      and f1: "s_NLn s = flux_at p q0 Nt (k - 1)"
      and d: "\<And>i. i < k \<Longrightarrow> s_energy s ! i = spec_energy p (field_at p q0 Nt i)
                    \<and> s_enstr s ! i = spec_enstrophy p (field_at p q0 Nt i)
                    \<and> s_mass s ! i = spec_mass p (field_at p q0 Nt i)"
      by auto
    have kpos: "0 < k" using Suc.hyps by simp
    have fk: "field_at p q0 Nt k = s_q s"
      by (rule field_at_state [OF kpos s])
    have qs: "has_shape (s_q s) (Ny p) (Nx p)"
      and l: "length (s_energy s) = Nt" "length (s_enstr s) = Nt" "length (s_mass s) = Nt"
      using st by (simp_all add: state_shape_def)
    have fxk: "flux_at p q0 Nt k = spec_flux_field p (s_q s)"
      using flux_at_eq [OF sh, of q0 Nt k] qs by (simp add: fk)
    let ?s' = "spec_ab3_pass p (Suc k) s"
    have step: "state_after p q0 Nt (Suc k) = Inr ?s'"
      using ab3_step_eq [OF sh st _ le npz]
      by (simp add: state_after_Suc [OF Suc.hyps] s)
    have diag: "s_energy ?s' ! i = spec_energy p (field_at p q0 Nt i)
                    \<and> s_enstr ?s' ! i = spec_enstrophy p (field_at p q0 Nt i)
                    \<and> s_mass ?s' ! i = spec_mass p (field_at p q0 Nt i)" if "i < Suc k" for i
    proof (cases "i = k")
      case True
      then show ?thesis using le by (simp add: spec_ab3_pass_sel l fk)
    next
      case False
      with that have "i < k" by simp
      then show ?thesis using d [OF \<open>i < k\<close>] False by (simp add: spec_ab3_pass_sel)
    qed
    show "\<exists>s. state_after p q0 Nt (Suc k) = Inr s \<and> state_shape p Nt s
            \<and> s_NLn s = flux_at p q0 Nt (Suc k - 1) \<and> s_NLnm s = flux_at p q0 Nt (Suc k - 2)
            \<and> (\<forall>i<Suc k. s_energy s ! i = spec_energy p (field_at p q0 Nt i)
                    \<and> s_enstr s ! i = spec_enstrophy p (field_at p q0 Nt i)
                    \<and> s_mass s ! i = spec_mass p (field_at p q0 Nt i))"
      apply (rule exI [of _ ?s'])
      using diag Suc.hyps
      apply (simp add: step state_shape_spec_ab3_pass [OF st] spec_ab3_pass_sel fxk f1)
      done
  qed
qed

lemma Parms_init_grid_4x2: "Parms_init 4 2 (2 * pi) pi 1 1 1 0 0 1 3 12 = Inr grid_4x2"
  apply (simp add: Parms_init_def py_div_def Let_def wavenumbers_def kx_index_def ky_index_def
        upto.simps meshgrid_def linspace_def inversion_kernel_def filter_kernel_def ew1_def
        ew2_def bdim_def ncols_def stretch_def set00_def upt_rec_numeral grid_4x2_def)
  apply (simp add: eval_nat_numeral)
  done

lemma spectral_shape_grid_4x2: "spectral_shape grid_4x2"
  by (rule Parms_init_shape [OF Parms_init_grid_4x2]) simp_all

lemma grid_4x2_sel:
  "Nx grid_4x2 = 4" "Ny grid_4x2 = 2" "dt grid_4x2 = 1" "tf grid_4x2 = 3" "npt grid_4x2 = 12"
  "F grid_4x2 = 0" "U grid_4x2 = 0" "Q_y grid_4x2 = 0"
  by (simp_all add: grid_4x2_def)

lemma has_shape_q_demo: "has_shape q_demo 2 4"
  by (simp add: q_demo_def has_shape_def)

subsection \<open>The flux and the diagnostics of \<open>flux_qg\<close>\<close>

text \<open>
  Claim C4.  For a configuration whose spectral arrays have the shape \<open>(2 Ny, Nx)\<close> and a
  field \<open>q\<close> of shape \<open>(Ny, Nx)\<close>, \<open>flux_qg\<close> returns without error.  The gradients
  \<open>q_x\<close>, \<open>q_y\<close> are the real parts of the inverse transforms of \<open>ikx\<close> and \<open>iky\<close> times the
  transform of the odd extension of \<open>q\<close>; the spectral streamfunction is \<open>K2Fi\<close> times that
  transform; \<open>u\<close> and \<open>v\<close> come from \<open>- iky\<close> and \<open>ikx\<close> times the spectral streamfunction;
  all five fields are restricted to the first \<open>Ny\<close> rows; and the flux returned is
  \<open>- (u + U) q_x - (q_y + Q_y) v\<close> entry by entry.
\<close>

theorem flux_qg_formula:
  assumes "spectral_shape p" and "has_shape q (Ny p) (Nx p)"
  shows "\<exists>fl e z m.
           flux_qg q p = Inr (fl, e, z, m) \<and>
           flux_fields q p =
             Inr \<lparr> f_qx = tabulate2 (Ny p) (Nx p) (spec_qx p q),
                   f_qy = tabulate2 (Ny p) (Nx p) (spec_qy p q),
                   f_u = tabulate2 (Ny p) (Nx p) (spec_u p q),
                   f_v = tabulate2 (Ny p) (Nx p) (spec_v p q),
                   f_psi = tabulate2 (Ny p) (Nx p) (spec_psi p q) \<rparr> \<and>
           fl = tabulate2 (Ny p) (Nx p)
                  (\<lambda>i j. - (spec_u p q i j + U p) * spec_qx p q i j
                           - (spec_qy p q i j + Q_y p) * spec_v p q i j)"
  using flux_qg_eq [OF assms] flux_fields_eq [OF assms]
  by (simp add: spec_flux_def [abs_def])

theorem flux_qg_formula_witness:
  "spectral_shape grid_4x2 \<and> has_shape q_demo (Ny grid_4x2) (Nx grid_4x2) \<and>
   (\<exists>fl e z m.
      flux_qg q_demo grid_4x2 = Inr (fl, e, z, m) \<and>
      fl = tabulate2 2 4
             (\<lambda>i j. - (spec_u grid_4x2 q_demo i j + 0) * spec_qx grid_4x2 q_demo i j
                      - (spec_qy grid_4x2 q_demo i j + 0) * spec_v grid_4x2 q_demo i j))"
proof -
  have h: "has_shape q_demo (Ny grid_4x2) (Nx grid_4x2)"
    by (simp add: grid_4x2_sel has_shape_q_demo)
  show ?thesis
    using flux_qg_formula [OF spectral_shape_grid_4x2 h] spectral_shape_grid_4x2 h
    by (auto simp add: grid_4x2_sel)
qed

text \<open>
  Claim C5.  Under the same conditions the three scalars that \<open>flux_qg\<close> returns are
  \<open>energy = 0.5 mean(u\<^sup>2 + v\<^sup>2) + mean(F psi\<^sup>2)\<close> and \<open>mass = mean(psi)\<close>, the means taken over
  the restricted fields, and \<open>enstrophy = mean(q\<^sup>2)\<close> over the input field.
\<close>

theorem flux_qg_diagnostics:
  assumes "spectral_shape p" and "has_shape q (Ny p) (Nx p)"
  shows "\<exists>fl.
           flux_qg q p =
             Inr (fl,
                  0.5 * spec_mean (Ny p) (Nx p) (\<lambda>i j. (spec_u p q i j)\<^sup>2 + (spec_v p q i j)\<^sup>2)
                    + spec_mean (Ny p) (Nx p) (\<lambda>i j. F p * (spec_psi p q i j)\<^sup>2),
                  spec_mean (Ny p) (Nx p) (\<lambda>i j. (q ! i ! j)\<^sup>2),
                  spec_mean (Ny p) (Nx p) (spec_psi p q))"
  using flux_qg_eq [OF assms]
  by (simp add: spec_energy_def spec_enstrophy_def spec_mass_def)

theorem flux_qg_diagnostics_witness:
  "spectral_shape grid_4x2 \<and> has_shape q_demo (Ny grid_4x2) (Nx grid_4x2) \<and>
   (\<exists>fl e m. flux_qg q_demo grid_4x2 = Inr (fl, e, 1 / 4, m))"
proof -
  have h: "has_shape q_demo (Ny grid_4x2) (Nx grid_4x2)"
    by (simp add: grid_4x2_sel has_shape_q_demo)
  have "spec_mean 2 4 (\<lambda>i j. (q_demo ! i ! j)\<^sup>2) = 1 / 4"
    by (simp add: spec_mean_def q_demo_def lessThan_nat_numeral lessThan_Suc)
  then show ?thesis
    using flux_qg_diagnostics [OF spectral_shape_grid_4x2 h] spectral_shape_grid_4x2 h
    by (auto simp add: grid_4x2_sel)
qed

subsection \<open>The inversion kernel at the zero wavenumber\<close>



lemma num_steps_eq:
  assumes "0 < dt p" "0 \<le> tf p"
  shows "num_steps p = Inr (nat \<lfloor>tf p / dt p\<rfloor>)"
proof -
  have "0 \<le> tf p / dt p" using assms by simp
  then show ?thesis
    using assms by (simp add: num_steps_def py_div_def py_int_def not_less)
qed

lemma solve_qg_state_after:
  assumes "num_steps p = Inr Nt" "2 \<le> Nt"
  shows "solve_qg p q0 =
           ebind (state_after p q0 Nt Nt) (\<lambda>s. Inr (s_q s, s_energy s, s_enstr s, s_mass s))"
  using assms
  by (cases "euler_step p Nt q0")
     (simp_all add: solve_qg_def state_after_def ebind_assoc)

lemma field_at_shape:
  assumes sh: "spectral_shape p" and q: "has_shape q0 (Ny p) (Nx p)"
    and np: "npt p \<noteq> 0 \<or> Nt = 2" and nt: "2 \<le> Nt" and i: "i \<le> Nt"
  shows "has_shape (field_at p q0 Nt i) (Ny p) (Nx p)"
proof -
  consider "i = 0" | "i = 1" | "2 \<le> i" by linarith
  then show ?thesis
  proof cases
    case 1
    then show ?thesis using q by (simp add: field_at_0)
  next
    case 2
    from bootstrap_state [OF sh q nt] have "field_at p q0 Nt 1 = spec_euler p q0 (flux_at p q0 Nt 0)"
      by blast
    then show ?thesis using 2 by (simp add: spec_euler_def has_shape_tabulate2)
  next
    case 3
    from traj_invariant [OF sh q np 3] i obtain s where
      "state_after p q0 Nt i = Inr s" "state_shape p Nt s" by blast
    then show ?thesis using 3 by (simp add: field_at_def state_shape_def)
  qed
qed


lemma solve_qg_IndexError:
  assumes sh: "spectral_shape p" and q: "has_shape q0 (Ny p) (Nx p)"
    and n: "num_steps p = Inr Nt" and nt: "Nt < 2"
  shows "solve_qg p q0 = Inl IndexError"
proof (cases "Nt = 0")
  case True
  then show ?thesis
    by (simp add: solve_qg_def n euler_step_def flux_qg_eq [OF sh q] store_diag_IndexError)
next
  case False
  then have nt1: "Nt = 1" "0 < Nt" using nt by simp_all
  obtain s0 where s0: "euler_step p Nt q0 = Inr s0"
    and q1: "has_shape (s_q s0) (Ny p) (Nx p)"
    and l: "length (s_energy s0) = Nt"
    using state_shape_euler [OF sh q nt1(2)] by blast
  have "ab2_step p s0 = Inl IndexError"
    using l nt1(1)
    by (simp add: ab2_step_def flux_qg_eq [OF sh q1] store_diag_IndexError)
  then show ?thesis
    by (simp add: solve_qg_def n s0)
qed

lemma solve_qg_ZeroDivisionError:
  assumes sh: "spectral_shape p" and q: "has_shape q0 (Ny p) (Nx p)"
    and n: "num_steps p = Inr Nt" and nt: "3 \<le> Nt" and np: "npt p = 0"
  shows "solve_qg p q0 = Inl ZeroDivisionError"
proof -
  have nt2: "2 \<le> Nt" using nt by simp
  from bootstrap_state [OF sh q nt2] obtain s0 s where
    a1: "state_after p q0 Nt 1 = Inr s0" and a2: "state_after p q0 Nt 2 = Inr s"
    and st: "state_shape p Nt s"
    by blast
  have e: "euler_step p Nt q0 = Inr s0"
    using a1 state_after_1 [of p q0 Nt] by simp
  have b: "ab2_step p s0 = Inr s"
    using a2 by (simp add: state_after_2 e)
  have r: "[3..<Nt + 1] = 3 # [4..<Nt + 1]"
    using nt by (simp add: upt_conv_Cons)
  have "ab3_step p 3 s = Inl ZeroDivisionError"
    using ab3_step_ZeroDivisionError [OF sh st _ nt np] by simp
  then have loop: "ab3_loop p [3..<Nt + 1] s = Inl ZeroDivisionError"
    by (subst r) simp
  show ?thesis
    unfolding solve_qg_def by (simp only: n e b loop ebind_Inr ebind_Inl)
qed

subsection \<open>The time stepper\<close>



text \<open>
  Claim C2.  For every step \<open>n\<close> with \<open>2 \<le> n < Nt\<close> (and a plot interval other than 0), the
  loop pass for \<open>ii = n + 1\<close> takes the state after \<open>n\<close> updates, whose retained fluxes are
  \<open>F\<^sub>n\<^sub>-\<^sub>1\<close> and \<open>F\<^sub>n\<^sub>-\<^sub>2\<close>, to the state after \<open>n + 1\<close> updates: the new field is the filtered
  \<open>q\<^sub>n + dt/12 (23 F\<^sub>n - 16 F\<^sub>n\<^sub>-\<^sub>1 + 5 F\<^sub>n\<^sub>-\<^sub>2)\<close>, where filtering is extension, forward
  transform, product with \<open>sfilt\<close>, inverse transform, real part and restriction to \<open>Ny\<close>
  rows; the retained fluxes become \<open>F\<^sub>n\<close> and \<open>F\<^sub>n\<^sub>-\<^sub>1\<close>.
\<close>

theorem ab3_update_filtered:
  assumes "spectral_shape p" and "has_shape q0 (Ny p) (Nx p)"
    and "2 \<le> n" and "n < Nt" and "npt p \<noteq> 0"
  shows "\<exists>s s'.
           state_after p q0 Nt n = Inr s \<and> ab3_step p (Suc n) s = Inr s' \<and>
           state_after p q0 Nt (Suc n) = Inr s' \<and>
           s_q s = field_at p q0 Nt n \<and>
           s_NLn s = flux_at p q0 Nt (n - 1) \<and> s_NLnm s = flux_at p q0 Nt (n - 2) \<and>
           s_q s' =
             tabulate2 (Ny p) (Nx p)
               (spec_filter p
                  (tabulate2 (Ny p) (Nx p)
                     (\<lambda>i j. field_at p q0 Nt n ! i ! j
                        + dt p / 12 * (23 * flux_at p q0 Nt n ! i ! j
                                         - 16 * flux_at p q0 Nt (n - 1) ! i ! j
                                         + 5 * flux_at p q0 Nt (n - 2) ! i ! j)))) \<and>
           s_NLn s' = flux_at p q0 Nt n \<and> s_NLnm s' = flux_at p q0 Nt (n - 1)"
proof -
  have np: "npt p \<noteq> 0 \<or> Nt = 2" using assms(5) by simp
  from traj_invariant [OF assms(1,2) np assms(3)] assms(4) obtain s where
    s: "state_after p q0 Nt n = Inr s" and st: "state_shape p Nt s"
    and f: "s_NLn s = flux_at p q0 Nt (n - 1)" "s_NLnm s = flux_at p q0 Nt (n - 2)"
    by auto
  have npos: "0 < n" using assms(3) by simp
  have fk: "field_at p q0 Nt n = s_q s"
    by (rule field_at_state [OF npos s])
  have qs: "has_shape (s_q s) (Ny p) (Nx p)"
    using st by (simp add: state_shape_def)
  have fx: "flux_at p q0 Nt n = spec_flux_field p (s_q s)"
    using flux_at_eq [OF assms(1), of q0 Nt n] qs by (simp add: fk)
  have le: "Suc n \<le> Nt" using assms(4) by simp
  have step: "ab3_step p (Suc n) s = Inr (spec_ab3_pass p (Suc n) s)"
    using ab3_step_eq [OF assms(1) st _ le assms(5)] by simp
  have after: "state_after p q0 Nt (Suc n) = Inr (spec_ab3_pass p (Suc n) s)"
    by (simp add: state_after_Suc [OF assms(3)] s step)
  show ?thesis
    using s step after f
    by (simp add: spec_ab3_pass_sel fk fx spec_ab3_def)
qed

theorem ab3_update_filtered_witness:
  "spectral_shape grid_4x2 \<and> has_shape q_demo (Ny grid_4x2) (Nx grid_4x2) \<and>
   (2::nat) \<le> 2 \<and> (2::nat) < 3 \<and> npt grid_4x2 \<noteq> 0 \<and>
   (\<exists>s s'. state_after grid_4x2 q_demo 3 2 = Inr s \<and> ab3_step grid_4x2 3 s = Inr s' \<and>
      s_NLn s' = flux_at grid_4x2 q_demo 3 2 \<and> s_NLnm s' = flux_at grid_4x2 q_demo 3 1)"
proof -
  have h: "has_shape q_demo (Ny grid_4x2) (Nx grid_4x2)"
    by (simp add: grid_4x2_sel has_shape_q_demo)
  have n: "(2::nat) \<le> 2" "(2::nat) < 3" "npt grid_4x2 \<noteq> 0" by (simp_all add: grid_4x2_sel)
  from ab3_update_filtered [OF spectral_shape_grid_4x2 h n]
  show ?thesis
    using spectral_shape_grid_4x2 h n by (simp add: eval_nat_numeral) blast
qed

lemma Parms_init_grid_4x2_time:
  "Parms_init 4 2 (2 * pi) pi 1 1 1 0 0 1 tf' npt'
     = Inr (grid_4x2\<lparr>tf := tf', npt := npt', tplot := real_of_int npt'\<rparr>)"
  apply (simp add: Parms_init_def py_div_def Let_def wavenumbers_def kx_index_def ky_index_def
        upto.simps meshgrid_def linspace_def inversion_kernel_def filter_kernel_def ew1_def
        ew2_def bdim_def ncols_def stretch_def set00_def upt_rec_numeral grid_4x2_def)
  apply (simp add: eval_nat_numeral)
  done

lemma spectral_shape_time:
  "spectral_shape (p\<lparr>tf := a, npt := b, tplot := c\<rparr>) = spectral_shape p"
  by (simp add: spectral_shape_def)




lemma twiddle_4:
  "twiddle 4 j = (if j mod 4 = 0 then 1 else if j mod 4 = 1 then \<i>
                  else if j mod 4 = 2 then - 1 else - \<i>)"
proof -
  define r where "r = j mod 4"
  define d where "d = j div 4"
  have j: "j = 4 * d + r" by (simp add: r_def d_def)
  have r: "r = 0 \<or> r = 1 \<or> r = 2 \<or> r = 3"
    unfolding r_def by presburger
  have "2 * pi * real_of_int j / real 4 = 2 * pi * real_of_int d + real_of_int r * (pi / 2)"
    by (simp add: j field_simps)
  then have "twiddle 4 j = cis (2 * pi * real_of_int d + real_of_int r * (pi / 2))"
    by (simp only: twiddle_def)
  then have "twiddle 4 j = cis (2 * pi * real_of_int d) * cis (real_of_int r * (pi / 2))"
    by (simp only: cis_mult)
  also have "cis (2 * pi * real_of_int d) = 1"
    by (rule cis_multiple_2pi) simp
  finally have t: "twiddle 4 j = cis (real_of_int r * (pi / 2))" by simp
  have c3: "cis (3 * (pi / 2)) = - \<i>"
  proof -
    have "3 * (pi / 2) = pi + pi / 2" by simp
    then have "cis (3 * (pi / 2)) = cis pi * cis (pi / 2)"
      by (simp only: cis_mult)
    then show ?thesis by simp
  qed
  from r show ?thesis
    using t c3 by (auto simp add: r_def [symmetric])
qed

lemma sum_lessThan_4: "(\<Sum>m<(4::nat). f m) = f 0 + f 1 + f 2 + (f 3 :: 'a :: comm_monoid_add)"
  by (simp add: eval_nat_numeral add.assoc)

lemma sum_lessThan_2: "(\<Sum>m<(2::nat). f m) = f 0 + (f 1 :: 'a :: comm_monoid_add)"
  by (simp add: eval_nat_numeral)

lemma upt_0_4: "[0..<4] = [0, 1, 2, 3]"
  by (simp add: eval_nat_numeral)

lemma upt_0_2: "[0..<2] = [0, 1]"
  by (simp add: eval_nat_numeral)

lemma spec_hat_q_demo:
  "tabulate2 4 4 (spec_hat 2 4 q_demo) =
     [[0, 0, 0, 0],
      [0, 2, - 2 + 2 * \<i>, - 2 * \<i>],
      [4, - 2 + 2 * \<i>, 0, - 2 - 2 * \<i>],
      [0, 2 * \<i>, - 2 - 2 * \<i>, 2]]"
  by (simp add: tabulate2_def upt_0_4 spec_hat_def spec_ext_def q_demo_def
        sum_lessThan_4 twiddle_4 complex_eq_iff)

lemma spec_hat_q_demo_nth:
  assumes "k < 4" "l < 4"
  shows "spec_hat 2 4 q_demo k l =
     [[0, 0, 0, 0],
      [0, 2, - 2 + 2 * \<i>, - 2 * \<i>],
      [4, - 2 + 2 * \<i>, 0, - 2 - 2 * \<i>],
      [0, 2 * \<i>, - 2 - 2 * \<i>, 2]] ! k ! l"
  using tabulate2_nth [OF assms, of "spec_hat 2 4 q_demo"] by (simp only: spec_hat_q_demo)

lemma grid_4x2_arrays:
  "ikx grid_4x2 = replicate 4 [0, \<i>, 2 * \<i>, - \<i>]"
  "iky grid_4x2 = [replicate 4 0, replicate 4 \<i>, replicate 4 (2 * \<i>), replicate 4 (- \<i>)]"
  "K2Fi grid_4x2 = [[0, - 1, - (1 / 4), - 1],
               [- 1, - (1 / 2), - (1 / 5), - (1 / 2)],
               [- (1 / 4), - (1 / 5), - (1 / 8), - (1 / 5)],
               [- 1, - (1 / 2), - (1 / 5), - (1 / 2)]]"
  by (simp_all add: grid_4x2_def)

lemma has_shape_scale: "has_shape q m n \<Longrightarrow> has_shape (scale c q) m n"
  by (simp add: scale_def has_shape_ew1)

lemma scale_nth: "has_shape q m n \<Longrightarrow> i < m \<Longrightarrow> j < n \<Longrightarrow> scale c q ! i ! j = c * q ! i ! j"
  by (simp add: scale_def ew1_nth)

lemma spec_ext_scale:
  assumes "has_shape q ny nx" "m < 2 * ny" "n < nx"
  shows "spec_ext ny (scale c q) m n = c * spec_ext ny q m n"
proof (cases "m < ny")
  case True
  then show ?thesis using assms by (simp add: spec_ext_def scale_nth [OF assms(1)])
next
  case False
  then have "2 * ny - 1 - m < ny" using assms(2) by simp
  then show ?thesis using False assms by (simp add: spec_ext_def scale_nth [OF assms(1)])
qed

lemma spec_hat_scale:
  assumes "has_shape q ny nx"
  shows "spec_hat ny nx (scale c q) k l = complex_of_real c * spec_hat ny nx q k l"
  by (simp add: spec_hat_def spec_ext_scale [OF assms] sum_distrib_left mult.assoc)

lemma spec_inv_scale:
  assumes "\<And>k l. k < M \<Longrightarrow> l < N \<Longrightarrow> g' k l = complex_of_real c * g k l"
  shows "spec_inv M N g' i j = c * spec_inv M N g i j"
proof -
  have "spec_cinv M N g' i j = complex_of_real c * spec_cinv M N g i j"
    by (simp add: spec_cinv_def assms sum_distrib_left mult.assoc)
  then show ?thesis
    by (simp add: spec_inv_def)
qed

lemma spec_fields_scale:
  assumes "has_shape q (Ny p) (Nx p)"
  shows "spec_qx p (scale c q) i j = c * spec_qx p q i j"
    and "spec_qy p (scale c q) i j = c * spec_qy p q i j"
    and "spec_psi p (scale c q) i j = c * spec_psi p q i j"
    and "spec_u p (scale c q) i j = c * spec_u p q i j"
    and "spec_v p (scale c q) i j = c * spec_v p q i j"
  unfolding spec_qx_def spec_qy_def spec_psi_def spec_u_def spec_v_def
  by (rule spec_inv_scale; simp add: spec_psi_hat_def spec_hat_scale [OF assms])+

lemma spec_mean_cong:
  "(\<And>i j. i < m \<Longrightarrow> j < n \<Longrightarrow> f i j = g i j) \<Longrightarrow> spec_mean m n f = spec_mean m n g"
  by (simp add: spec_mean_def)

lemma spec_mean_scale: "spec_mean m n (\<lambda>i j. c * f i j) = c * spec_mean m n f"
  by (simp add: spec_mean_def sum_distrib_left)

lemma spec_enstrophy_scale:
  assumes "has_shape q (Ny p) (Nx p)"
  shows "spec_enstrophy p (scale c q) = c\<^sup>2 * spec_enstrophy p q"
proof -
  have "spec_enstrophy p (scale c q) = spec_mean (Ny p) (Nx p) (\<lambda>i j. c\<^sup>2 * (q ! i ! j)\<^sup>2)"
    unfolding spec_enstrophy_def
    by (rule spec_mean_cong) (simp add: scale_nth [OF assms] power_mult_distrib)
  then show ?thesis
    by (simp add: spec_mean_scale spec_enstrophy_def)
qed

lemmas eval_4x2 =
  tabulate2_def upt_0_4 upt_0_2 spec_flux_field_def spec_flux_def spec_energy_def spec_mass_def
  spec_enstrophy_def spec_mean_def spec_qx_def spec_qy_def spec_u_def spec_v_def spec_psi_def
  spec_psi_hat_def spec_inv_def spec_cinv_def grid_4x2_sel grid_4x2_arrays sum_lessThan_4
  sum_lessThan_2 twiddle_4

lemma flux_qg_q_demo:
  "flux_qg q_demo grid_4x2 =
     Inr ([[3 / 80, 0, 0, 3 / 80], [0, 3 / 80, 3 / 80, 0]], 29 / 1600, 1 / 4, 0)"
proof -
  have h: "has_shape q_demo (Ny grid_4x2) (Nx grid_4x2)"
    by (simp add: grid_4x2_sel has_shape_q_demo)
  have 1: "spec_flux_field grid_4x2 q_demo = [[3 / 80, 0, 0, 3 / 80], [0, 3 / 80, 3 / 80, 0]]"
    by (simp add: eval_4x2 spec_hat_q_demo_nth)
  have 2: "spec_energy grid_4x2 q_demo = 29 / 1600"
    by (simp add: eval_4x2 spec_hat_q_demo_nth power2_eq_square)
  have 3: "spec_enstrophy grid_4x2 q_demo = 1 / 4"
    by (simp add: eval_4x2 q_demo_def)
  have 4: "spec_mass grid_4x2 q_demo = 0"
    by (simp add: eval_4x2 spec_hat_q_demo_nth)
  show ?thesis
    by (simp only: flux_qg_eq [OF spectral_shape_grid_4x2 h] 1 [unfolded spec_flux_field_def] 2 3 4)
qed

lemma spec_flux_scale:
  assumes "has_shape q (Ny p) (Nx p)"
  shows "spec_flux p (scale c q) i j =
           c * spec_flux p q i j
             + (c\<^sup>2 - c) * (- spec_u p q i j * spec_qx p q i j - spec_qy p q i j * spec_v p q i j)"
  by (simp add: spec_flux_def spec_fields_scale [OF assms] power2_eq_square algebra_simps)

lemma spec_mass_scale:
  assumes "has_shape q (Ny p) (Nx p)"
  shows "spec_mass p (scale c q) = c * spec_mass p q"
proof -
  have "spec_psi p (scale c q) = (\<lambda>i j. c * spec_psi p q i j)"
    by (intro ext) (rule spec_fields_scale(3) [OF assms])
  then show ?thesis
    by (simp add: spec_mass_def spec_mean_scale)
qed

lemma flux_qg_scale:
  assumes sh: "spectral_shape p" and q: "has_shape q (Ny p) (Nx p)"
  shows "flux_qg (scale c q) p =
           Inr (tabulate2 (Ny p) (Nx p)
                  (\<lambda>i j. c * spec_flux p q i j
                           + (c\<^sup>2 - c) * (- spec_u p q i j * spec_qx p q i j
                                            - spec_qy p q i j * spec_v p q i j)),
                spec_energy p (scale c q), c\<^sup>2 * spec_enstrophy p q, c * spec_mass p q)"
proof -
  have "spec_flux p (scale c q) =
          (\<lambda>i j. c * spec_flux p q i j
                   + (c\<^sup>2 - c) * (- spec_u p q i j * spec_qx p q i j
                                    - spec_qy p q i j * spec_v p q i j))"
    by (intro ext) (rule spec_flux_scale [OF q])
  then show ?thesis
    by (simp add: flux_qg_eq [OF sh has_shape_scale [OF q]]
          spec_enstrophy_scale [OF q] spec_mass_scale [OF q])
qed

subsection \<open>Scaling the field\<close>

text \<open>
  Claim C8, as amended.  For a field \<open>q\<close>, a configuration and a scalar \<open>c\<close>, the enstrophy
  that \<open>flux_qg\<close> returns for \<open>c*q\<close> is \<open>c\<^sup>2\<close> times the one for \<open>q\<close>.  The flux of \<open>c*q\<close> is \<open>c\<close>
  times the flux of \<open>q\<close> plus \<open>(c\<^sup>2 - c)\<close> times the advective part \<open>- u q_x - q_y v\<close> of the
  flux of \<open>q\<close>: the fields \<open>u\<close>, \<open>v\<close>, \<open>q_x\<close>, \<open>q_y\<close> are linear in \<open>q\<close>, and the flux multiplies
  them in pairs.
\<close>

theorem flux_qg_scaling:
  assumes "spectral_shape p" and "has_shape q (Ny p) (Nx p)"
  shows "\<exists>fl e z m fl' e' m'.
           flux_qg q p = Inr (fl, e, z, m) \<and>
           flux_qg (scale c q) p = Inr (fl', e', c\<^sup>2 * z, m') \<and>
           fl' = tabulate2 (Ny p) (Nx p)
                   (\<lambda>i j. c * fl ! i ! j
                            + (c\<^sup>2 - c) * (- spec_u p q i j * spec_qx p q i j
                                             - spec_qy p q i j * spec_v p q i j))"
proof -
  have "tabulate2 (Ny p) (Nx p)
          (\<lambda>i j. c * tabulate2 (Ny p) (Nx p) (spec_flux p q) ! i ! j
                   + (c\<^sup>2 - c) * (- spec_u p q i j * spec_qx p q i j
                                    - spec_qy p q i j * spec_v p q i j))
        = tabulate2 (Ny p) (Nx p)
          (\<lambda>i j. c * spec_flux p q i j
                   + (c\<^sup>2 - c) * (- spec_u p q i j * spec_qx p q i j
                                    - spec_qy p q i j * spec_v p q i j))"
    by (rule tabulate2_cong) (simp add: tabulate2_nth)
  then show ?thesis
    using flux_qg_eq [OF assms] flux_qg_scale [OF assms, of c] by simp
qed

theorem flux_qg_scaling_witness:
  "spectral_shape grid_4x2 \<and> has_shape q_demo (Ny grid_4x2) (Nx grid_4x2) \<and>
   (\<exists>fl e z m fl' e' m'.
      flux_qg q_demo grid_4x2 = Inr (fl, e, z, m) \<and>
      flux_qg (scale 3 q_demo) grid_4x2 = Inr (fl', e', 3\<^sup>2 * z, m'))"
proof -
  have h: "has_shape q_demo (Ny grid_4x2) (Nx grid_4x2)"
    by (simp add: grid_4x2_sel has_shape_q_demo)
  from flux_qg_scaling [OF spectral_shape_grid_4x2 h, of 3]
  show ?thesis
    using spectral_shape_grid_4x2 h by blast
qed

text \<open>
  The flux part of the claim as stated fails: on the 4 by 2 grid with \<open>U = 0\<close> and
  \<open>Q_y = 0\<close> the flux of \<open>2*q\<close> is four times the flux of \<open>q\<close>, not twice.
\<close>

theorem flux_qg_scaling_counterexample:
  "flux_qg q_demo grid_4x2 =
     Inr ([[3 / 80, 0, 0, 3 / 80], [0, 3 / 80, 3 / 80, 0]], 29 / 1600, 1 / 4, 0) \<and>
   flux_qg (scale 2 q_demo) grid_4x2 =
     Inr ([[3 / 20, 0, 0, 3 / 20], [0, 3 / 20, 3 / 20, 0]], 29 / 400, 1, 0) \<and>
   scale 2 [[3 / 80, 0, 0, 3 / 80], [0, 3 / 80, 3 / 80, 0]]
     \<noteq> [[3 / 20, 0, 0, 3 / 20], [0, 3 / 20, 3 / 20, 0 :: real]]"
proof -
  have h: "has_shape q_demo (Ny grid_4x2) (Nx grid_4x2)"
    by (simp add: grid_4x2_sel has_shape_q_demo)
  have h2: "has_shape (scale 2 q_demo) (Ny grid_4x2) (Nx grid_4x2)"
    by (rule has_shape_scale [OF h])
  have hs: "spec_hat 2 4 (scale 2 q_demo) k l = 2 * spec_hat 2 4 q_demo k l" for k l
    using spec_hat_scale [OF has_shape_q_demo, of 2 k l] by simp
  have 1: "spec_flux_field grid_4x2 (scale 2 q_demo)
             = [[3 / 20, 0, 0, 3 / 20], [0, 3 / 20, 3 / 20, 0]]"
    by (simp add: eval_4x2 hs spec_hat_q_demo_nth)
  have 2: "spec_energy grid_4x2 (scale 2 q_demo) = 29 / 400"
    by (simp add: eval_4x2 hs spec_hat_q_demo_nth power2_eq_square)
  have 3: "spec_enstrophy grid_4x2 (scale 2 q_demo) = 1"
    by (simp add: eval_4x2 q_demo_def scale_def ew1_def)
  have 4: "spec_mass grid_4x2 (scale 2 q_demo) = 0"
    by (simp add: eval_4x2 hs spec_hat_q_demo_nth)
  have a: "flux_qg (scale 2 q_demo) grid_4x2 =
     Inr ([[3 / 20, 0, 0, 3 / 20], [0, 3 / 20, 3 / 20, 0]], 29 / 400, 1, 0)"
    by (simp only: flux_qg_eq [OF spectral_shape_grid_4x2 h2] 1 [unfolded spec_flux_field_def] 2 3 4)
  have b: "scale 2 [[3 / 80, 0, 0, 3 / 80], [0, 3 / 80, 3 / 80, 0]]
     \<noteq> [[3 / 20, 0, 0, 3 / 20], [0, 3 / 20, 3 / 20, 0 :: real]]"
    by (simp add: scale_def ew1_def)
  show ?thesis
    by (intro conjI flux_qg_q_demo a b)
qed

lemma spec_hat_q_demo1:
  "tabulate2 4 4 (spec_hat 2 4 q_demo1) =
     [[0, 0, 0, 0],
      [3 / 20 - 3 / 20 * \<i>, 2, - 2 + 2 * \<i>, - 2 * \<i>],
      [4, - (37 / 20) + 43 / 20 * \<i>, 0, - (37 / 20) - 43 / 20 * \<i>],
      [3 / 20 + 3 / 20 * \<i>, 2 * \<i>, - 2 - 2 * \<i>, 2]]"
  by (simp add: tabulate2_def upt_0_4 spec_hat_def spec_ext_def q_demo1_def
        sum_lessThan_4 twiddle_4 complex_eq_iff)

lemma spec_hat_q_demo1_nth:
  assumes "k < 4" "l < 4"
  shows "spec_hat 2 4 q_demo1 k l =
     [[0, 0, 0, 0],
      [3 / 20 - 3 / 20 * \<i>, 2, - 2 + 2 * \<i>, - 2 * \<i>],
      [4, - (37 / 20) + 43 / 20 * \<i>, 0, - (37 / 20) - 43 / 20 * \<i>],
      [3 / 20 + 3 / 20 * \<i>, 2 * \<i>, - 2 - 2 * \<i>, 2]] ! k ! l"
  using tabulate2_nth [OF assms, of "spec_hat 2 4 q_demo1"] by (simp only: spec_hat_q_demo1)

lemma spec_hat_q_demo2:
  "tabulate2 4 4 (spec_hat 2 4 q_demo2) =
     [[0, 0, 0, 0],
      [3 / 10 - 3 / 10 * \<i>, 409 / 200 - 27 / 8000 * \<i>,
       - (3173 / 1600) + 3173 / 1600 * \<i>, 27 / 8000 - 409 / 200 * \<i>],
      [4, - (107 / 64) + 727 / 320 * \<i>, 0, - (107 / 64) - 727 / 320 * \<i>],
      [3 / 10 + 3 / 10 * \<i>, 27 / 8000 + 409 / 200 * \<i>,
       - (3173 / 1600) - 3173 / 1600 * \<i>, 409 / 200 + 27 / 8000 * \<i>]]"
  by (simp add: tabulate2_def upt_0_4 spec_hat_def spec_ext_def q_demo2_def
        sum_lessThan_4 twiddle_4 complex_eq_iff)

lemma spec_hat_q_demo2_nth:
  assumes "k < 4" "l < 4"
  shows "spec_hat 2 4 q_demo2 k l =
     [[0, 0, 0, 0],
      [3 / 10 - 3 / 10 * \<i>, 409 / 200 - 27 / 8000 * \<i>,
       - (3173 / 1600) + 3173 / 1600 * \<i>, 27 / 8000 - 409 / 200 * \<i>],
      [4, - (107 / 64) + 727 / 320 * \<i>, 0, - (107 / 64) - 727 / 320 * \<i>],
      [3 / 10 + 3 / 10 * \<i>, 27 / 8000 + 409 / 200 * \<i>,
       - (3173 / 1600) - 3173 / 1600 * \<i>, 409 / 200 + 27 / 8000 * \<i>]] ! k ! l"
  using tabulate2_nth [OF assms, of "spec_hat 2 4 q_demo2"] by (simp only: spec_hat_q_demo2)

lemma spec_flux_field_q_demo:
  "spec_flux_field grid_4x2 q_demo = [[3 / 80, 0, 0, 3 / 80], [0, 3 / 80, 3 / 80, 0]]"
  by (simp add: eval_4x2 spec_hat_q_demo_nth)

lemma spec_flux_field_q_demo1:
  "spec_flux_field grid_4x2 q_demo1 =
     [[1449 / 32000, - (81 / 32000), - (159 / 32000), 1191 / 32000],
      [99 / 32000, 969 / 32000, 1191 / 32000, 141 / 32000]]"
  by (simp add: eval_4x2 spec_hat_q_demo1_nth)

lemma spec_mass_q_demo:
  "spec_mass grid_4x2 q_demo = 0"
  "spec_mass grid_4x2 q_demo1 = - (3 / 160)"
  "spec_mass grid_4x2 q_demo2 = - (3 / 80)"
  by (simp_all add: eval_4x2 spec_hat_q_demo_nth spec_hat_q_demo1_nth spec_hat_q_demo2_nth)

lemma euler_q_demo:
  "spec_euler grid_4x2 q_demo [[3 / 80, 0, 0, 3 / 80], [0, 3 / 80, 3 / 80, 0]] = q_demo1"
  by (simp add: spec_euler_def tabulate2_def upt_0_4 upt_0_2 grid_4x2_sel q_demo_def q_demo1_def)

lemma ab2_q_demo:
  "spec_ab2 grid_4x2 q_demo1
     [[1449 / 32000, - (81 / 32000), - (159 / 32000), 1191 / 32000],
      [99 / 32000, 969 / 32000, 1191 / 32000, 141 / 32000]]
     [[3 / 80, 0, 0, 3 / 80], [0, 3 / 80, 3 / 80, 0]] = q_demo2"
  by (simp add: spec_ab2_def tabulate2_def upt_0_4 upt_0_2 grid_4x2_sel q_demo1_def q_demo2_def)

lemma fields_q_demo:
  "field_at grid_4x2 q_demo 3 0 = q_demo"
  "field_at grid_4x2 q_demo 3 1 = q_demo1"
  "field_at grid_4x2 q_demo 3 2 = q_demo2"
proof -
  have h: "has_shape q_demo (Ny grid_4x2) (Nx grid_4x2)"
    by (simp add: grid_4x2_sel has_shape_q_demo)
  have n: "(2::nat) \<le> 3" by simp
  note sh = spectral_shape_grid_4x2
  show f0: "field_at grid_4x2 q_demo 3 0 = q_demo"
    by (rule field_at_0)
  from bootstrap_state [OF sh h n] obtain s where
    a2: "state_after grid_4x2 q_demo 3 2 = Inr s"
    and f1: "field_at grid_4x2 q_demo 3 1 = spec_euler grid_4x2 q_demo (flux_at grid_4x2 q_demo 3 0)"
    and q2: "s_q s = spec_ab2 grid_4x2 (field_at grid_4x2 q_demo 3 1)
                       (flux_at grid_4x2 q_demo 3 1) (flux_at grid_4x2 q_demo 3 0)"
    by blast
  have x0: "flux_at grid_4x2 q_demo 3 0 = [[3 / 80, 0, 0, 3 / 80], [0, 3 / 80, 3 / 80, 0]]"
    using flux_at_eq [OF sh, of q_demo 3 0] h
    by (simp only: f0 spec_flux_field_q_demo)
  show f1': "field_at grid_4x2 q_demo 3 1 = q_demo1"
    by (simp only: f1 x0 euler_q_demo)
  have h1: "has_shape q_demo1 (Ny grid_4x2) (Nx grid_4x2)"
    by (simp add: grid_4x2_sel q_demo1_def has_shape_def)
  have x1: "flux_at grid_4x2 q_demo 3 1 =
     [[1449 / 32000, - (81 / 32000), - (159 / 32000), 1191 / 32000],
      [99 / 32000, 969 / 32000, 1191 / 32000, 141 / 32000]]"
    using flux_at_eq [OF sh, of q_demo 3 1] h1
    by (simp only: f1' spec_flux_field_q_demo1)
  have "field_at grid_4x2 q_demo 3 2 = s_q s"
    by (rule field_at_state [OF _ a2]) simp
  then show "field_at grid_4x2 q_demo 3 2 = q_demo2"
    by (simp only: q2 f1' x0 x1 ab2_q_demo)
qed

lemma list3_nth: "length xs = 3 \<Longrightarrow> xs = [xs ! 0, xs ! 1, xs ! 2]"
  by (cases xs; cases "tl xs"; cases "tl (tl xs)") auto


lemma zeros2_tabulate2: "zeros2 m n = tabulate2 m n (\<lambda>i j. 0)"
  by (simp add: zeros2_def tabulate2_def map_replicate_const)

lemma has_shape_zeros2: "has_shape (zeros2 m n) m n"
  by (simp add: zeros2_tabulate2 has_shape_tabulate2)

lemma zeros2_nth: "i < m \<Longrightarrow> j < n \<Longrightarrow> zeros2 m n ! i ! j = 0"
  by (simp add: zeros2_def)

lemma spec_hat_zeros2: "spec_hat ny nx (zeros2 ny nx) k l = 0"
proof -
  have "spec_ext ny (zeros2 ny nx) m n = 0" if "m < 2 * ny" "n < nx" for m n
  proof (cases "m < ny")
    case True
    then show ?thesis using that by (simp add: spec_ext_def zeros2_nth)
  next
    case False
    then have "2 * ny - 1 - m < ny" using that by simp
    then show ?thesis using False that by (simp add: spec_ext_def zeros2_nth)
  qed
  then show ?thesis
    by (simp add: spec_hat_def)
qed

lemma spec_inv_zero:
  assumes "\<And>k l. k < M \<Longrightarrow> l < N \<Longrightarrow> g k l = 0"
  shows "spec_inv M N g i j = 0"
  by (simp add: spec_inv_def spec_cinv_def assms)

lemma spec_fields_zeros2:
  "spec_qx p (zeros2 (Ny p) (Nx p)) i j = 0"
  "spec_qy p (zeros2 (Ny p) (Nx p)) i j = 0"
  "spec_psi p (zeros2 (Ny p) (Nx p)) i j = 0"
  "spec_u p (zeros2 (Ny p) (Nx p)) i j = 0"
  "spec_v p (zeros2 (Ny p) (Nx p)) i j = 0"
  "spec_filter p (zeros2 (Ny p) (Nx p)) i j = 0"
  unfolding spec_qx_def spec_qy_def spec_psi_def spec_u_def spec_v_def spec_filter_def
  by (rule spec_inv_zero; simp add: spec_psi_hat_def spec_hat_zeros2)+

lemma spec_flux_field_zeros2:
  "spec_flux_field p (zeros2 (Ny p) (Nx p)) = zeros2 (Ny p) (Nx p)"
  by (simp add: spec_flux_field_def zeros2_tabulate2 [of "Ny p" "Nx p"] spec_flux_def
        spec_fields_zeros2 [unfolded zeros2_tabulate2] cong: tabulate2_cong)

lemma spec_mass_zeros2: "spec_mass p (zeros2 (Ny p) (Nx p)) = 0"
  by (simp add: spec_mass_def spec_mean_def spec_fields_zeros2)

lemma spec_updates_zeros2:
  "spec_euler p (zeros2 (Ny p) (Nx p)) (zeros2 (Ny p) (Nx p)) = zeros2 (Ny p) (Nx p)"
  "spec_ab2 p (zeros2 (Ny p) (Nx p)) (zeros2 (Ny p) (Nx p)) (zeros2 (Ny p) (Nx p))
     = zeros2 (Ny p) (Nx p)"
  "spec_ab3 p (zeros2 (Ny p) (Nx p)) (zeros2 (Ny p) (Nx p)) (zeros2 (Ny p) (Nx p))
     (zeros2 (Ny p) (Nx p)) = zeros2 (Ny p) (Nx p)"
  "tabulate2 (Ny p) (Nx p) (spec_filter p (zeros2 (Ny p) (Nx p))) = zeros2 (Ny p) (Nx p)"
  by (simp_all add: spec_euler_def spec_ab2_def spec_ab3_def zeros2_nth spec_fields_zeros2
        zeros2_tabulate2 [of "Ny p" "Nx p", symmetric] cong: tabulate2_cong)

lemma zero_run:
  assumes sh: "spectral_shape p" and np: "npt p \<noteq> 0 \<or> Nt = 2" and k: "2 \<le> k"
  shows "k \<le> Nt \<longrightarrow>
         (\<exists>s. state_after p (zeros2 (Ny p) (Nx p)) Nt k = Inr s \<and> state_shape p Nt s
            \<and> s_q s = zeros2 (Ny p) (Nx p) \<and> s_NLn s = zeros2 (Ny p) (Nx p)
            \<and> s_NLnm s = zeros2 (Ny p) (Nx p))"
  using k
proof (induction k rule: nat_induct_at_least)
  case base
  let ?z = "zeros2 (Ny p) (Nx p)"
  show ?case
  proof
    assume nt: "2 \<le> Nt"
    from bootstrap_state [OF sh has_shape_zeros2 nt] obtain s where
      a2: "state_after p ?z Nt 2 = Inr s" and st: "state_shape p Nt s"
      and f1: "field_at p ?z Nt 1 = spec_euler p ?z (flux_at p ?z Nt 0)"
      and q2: "s_q s = spec_ab2 p (field_at p ?z Nt 1) (flux_at p ?z Nt 1) (flux_at p ?z Nt 0)"
      and fl: "s_NLn s = flux_at p ?z Nt 1" "s_NLnm s = flux_at p ?z Nt 0"
      by blast
    have x0: "flux_at p ?z Nt 0 = ?z"
      using flux_at_eq [OF sh, of ?z Nt 0] has_shape_zeros2 [of "Ny p" "Nx p"]
      by (simp add: field_at_0 spec_flux_field_zeros2)
    have f1': "field_at p ?z Nt 1 = ?z"
      by (simp only: f1 x0 spec_updates_zeros2)
    have x1: "flux_at p ?z Nt 1 = ?z"
      using flux_at_eq [OF sh, of ?z Nt 1] has_shape_zeros2 [of "Ny p" "Nx p"]
      by (simp only: f1' spec_flux_field_zeros2)
    show "\<exists>s. state_after p ?z Nt 2 = Inr s \<and> state_shape p Nt s
            \<and> s_q s = ?z \<and> s_NLn s = ?z \<and> s_NLnm s = ?z"
      using a2 st q2 fl by (simp only: f1' x0 x1 spec_updates_zeros2) blast
  qed
next
  case (Suc k)
  let ?z = "zeros2 (Ny p) (Nx p)"
  show ?case
  proof
    assume le: "Suc k \<le> Nt"
    with Suc.hyps have npz: "npt p \<noteq> 0" using np by auto
    from le Suc.IH obtain s where s: "state_after p ?z Nt k = Inr s"
      and st: "state_shape p Nt s"
      and z: "s_q s = ?z" "s_NLn s = ?z" "s_NLnm s = ?z"
      by auto
    let ?s' = "spec_ab3_pass p (Suc k) s"
    have step: "state_after p ?z Nt (Suc k) = Inr ?s'"
      using ab3_step_eq [OF sh st _ le npz]
      by (simp add: state_after_Suc [OF Suc.hyps] s)
    have "s_q ?s' = ?z" "s_NLn ?s' = ?z" "s_NLnm ?s' = ?z"
      by (simp_all only: spec_ab3_pass_sel z spec_flux_field_zeros2 spec_updates_zeros2)
    then show "\<exists>s. state_after p ?z Nt (Suc k) = Inr s \<and> state_shape p Nt s
            \<and> s_q s = ?z \<and> s_NLn s = ?z \<and> s_NLnm s = ?z"
      using step state_shape_spec_ab3_pass [OF st] by blast
  qed
qed

lemma field_at_zeros2:
  assumes sh: "spectral_shape p" and np: "npt p \<noteq> 0 \<or> Nt = 2" and nt: "2 \<le> Nt"
    and i: "i \<le> Nt"
  shows "field_at p (zeros2 (Ny p) (Nx p)) Nt i = zeros2 (Ny p) (Nx p)"
proof -
  let ?z = "zeros2 (Ny p) (Nx p)"
  consider "i = 0" | "i = 1" | "2 \<le> i" by linarith
  then show ?thesis
  proof cases
    case 1
    then show ?thesis by (simp add: field_at_0)
  next
    case 2
    from bootstrap_state [OF sh has_shape_zeros2 nt]
    have f1: "field_at p ?z Nt 1 = spec_euler p ?z (flux_at p ?z Nt 0)"
      by blast
    have x0: "flux_at p ?z Nt 0 = ?z"
      using flux_at_eq [OF sh, of ?z Nt 0] has_shape_zeros2 [of "Ny p" "Nx p"]
      by (simp add: field_at_0 spec_flux_field_zeros2)
    show ?thesis
      unfolding 2 by (simp only: f1 x0 spec_updates_zeros2)
  next
    case 3
    from zero_run [OF sh np 3] i obtain s where
      "state_after p ?z Nt i = Inr s" "s_q s = ?z" by blast
    then show ?thesis using 3 by (simp add: field_at_def)
  qed
qed

subsection \<open>The mass diagnostic\<close>



subsection \<open>Extension and restriction\<close>

lemma length_extend_odd: "length (extend_odd q) = 2 * length q"
  by (simp add: extend_odd_def vstack_def neg_def flipud_def)

text \<open>
  Claim C9.  For every real field \<open>q\<close> with \<open>Ny\<close> rows, the rows \<open>0..Ny-1\<close> of
  \<open>vstack(q, -flipud(q))\<close> are exactly \<open>q\<close>: restricting the odd extension to the physical
  domain is the identity.
\<close>

theorem restrict_extend_identity:
  "has_shape q ny nx \<Longrightarrow> rows_upto ny (vstack q (neg (flipud q))) = q"
  by (simp add: has_shape_def rows_upto_def vstack_def)

theorem restrict_extend_identity_witness:
  "has_shape [[1, 2, 3], [4, 5, 6 :: real]] 2 3 \<and>
   rows_upto 2 (vstack [[1, 2, 3], [4, 5, 6 :: real]] (neg (flipud [[1, 2, 3], [4, 5, 6]])))
     = [[1, 2, 3], [4, 5, 6]]"
  using restrict_extend_identity [of "[[1, 2, 3], [4, 5, 6 :: real]]" 2 3]
  by (simp add: has_shape_def)

end
